theory Spec2Isabelle
  imports Main
begin

section \<open>CarRental.py: the vehicle rental tracker\<close>

subsection \<open>Entities\<close>

text \<open>
  The classes \<^verbatim>\<open>User\<close>, \<^verbatim>\<open>Vehicle\<close> and \<^verbatim>\<open>Booking\<close> are records. The attributes of
  \<^verbatim>\<open>Booking\<close> that share a name with an attribute of \<^verbatim>\<open>User\<close> or \<^verbatim>\<open>Vehicle\<close> carry the
  prefix \<open>b_\<close>. The booking status is the Python string the source assigns
  (\<^verbatim>\<open>"BOOKED"\<close>, \<^verbatim>\<open>"RENTED"\<close>, \<^verbatim>\<open>"COMPLETED"\<close>); booking ids are Python integers.
\<close>

record User =
  username :: string
  location :: string

record Vehicle =
  vehicle_name :: string
  plate_number :: string
  vehicle_location :: string
  vehicleisavailable :: bool

record Booking =
  booking_id :: int
  b_username :: string
  b_vehicle_name :: string
  b_plate_number :: string
  b_location :: string
  status :: string

text \<open>\<^verbatim>\<open>Vehicle.__init__\<close>: a new vehicle is available.\<close>

definition Vehicle_init :: "string \<Rightarrow> string \<Rightarrow> string \<Rightarrow> Vehicle" where
  "Vehicle_init vname plate loc =
     \<lparr>vehicle_name = vname, plate_number = plate, vehicle_location = loc,
      vehicleisavailable = True\<rparr>"

subsection \<open>State\<close>

text \<open>
  \<^verbatim>\<open>Vehicle\<close> objects are mutable and are held by reference in the lists of
  \<^verbatim>\<open>vehicle_loc_hashmap\<close>, so they live in an explicit store: \<open>store\<close> maps a reference
  to the object it points to and \<open>next_ref\<close> is the next unused reference. The remaining
  fields are the attribute \<^verbatim>\<open>VehicleManager.vehicle_loc_hashmap\<close>, the attribute
  \<^verbatim>\<open>VehicleBookRentManager.booking_records\<close> and the class attribute
  \<^verbatim>\<open>Booking.booking_counter\<close>. A \<^verbatim>\<open>Booking\<close> object is referenced from
  \<^verbatim>\<open>booking_records\<close> only, so the dictionary holds it by value.
\<close>

type_synonym ref = nat

record VehicleSystem =
  store :: "ref \<rightharpoonup> Vehicle"
  next_ref :: ref
  vehicle_loc_hashmap :: "string \<rightharpoonup> ref list"
  booking_records :: "int \<rightharpoonup> Booking"
  booking_counter :: int

text \<open>The empty system: no object, no vehicle, no booking, \<^verbatim>\<open>booking_counter = 1\<close>.\<close>

definition VehicleSystem_init :: VehicleSystem where
  "VehicleSystem_init =
     \<lparr>store = Map.empty, next_ref = 0, vehicle_loc_hashmap = Map.empty,
      booking_records = Map.empty, booking_counter = 1\<rparr>"

text \<open>The expression \<^verbatim>\<open>Vehicle(name, plate, location)\<close>: allocates the object.\<close>

definition new_Vehicle :: "VehicleSystem \<Rightarrow> string \<Rightarrow> string \<Rightarrow> string \<Rightarrow> ref \<times> VehicleSystem" where
  "new_Vehicle s vname plate loc =
     (next_ref s,
      s\<lparr>store := (store s)(next_ref s \<mapsto> Vehicle_init vname plate loc),
        next_ref := Suc (next_ref s)\<rparr>)"

subsection \<open>VehicleManager\<close>

text \<open>\<^verbatim>\<open>getVehicles\<close>: \<^verbatim>\<open>vehicle_loc_hashmap.get(location, [])\<close>.\<close>

definition getVehicles :: "VehicleSystem \<Rightarrow> string \<Rightarrow> ref list" where
  "getVehicles s loc = (case vehicle_loc_hashmap s loc of None \<Rightarrow> [] | Some vs \<Rightarrow> vs)"

text \<open>
  \<^verbatim>\<open>addvehicle\<close>: \<^verbatim>\<open>setdefault(vehicle.vehicle_location, []).append(vehicle)\<close>, returns
  \<^verbatim>\<open>True\<close>. The argument is a reference to a constructed object; a reference that
  points to no object cannot be passed in Python, and the model leaves the state as
  it is there.
\<close>

definition addvehicle :: "VehicleSystem \<Rightarrow> ref \<Rightarrow> bool \<times> VehicleSystem" where
  "addvehicle s r =
     (case store s r of
        None \<Rightarrow> (False, s)
      | Some vehicle \<Rightarrow>
          (True,
           s\<lparr>vehicle_loc_hashmap :=
               (vehicle_loc_hashmap s)
                 (vehicle_location vehicle \<mapsto> getVehicles s (vehicle_location vehicle) @ [r])\<rparr>))"

subsection \<open>VehicleBookRentManager\<close>

text \<open>
  \<^verbatim>\<open>Booking.__init__\<close>: takes the id from the class counter, increments the counter
  and copies the vehicle's name, plate number and location; the status is
  \<^verbatim>\<open>"BOOKED"\<close>.
\<close>

definition Booking_init :: "VehicleSystem \<Rightarrow> User \<Rightarrow> Vehicle \<Rightarrow> Booking \<times> VehicleSystem" where
  "Booking_init s user vehicle =
     (\<lparr>booking_id = booking_counter s, b_username = username user,
       b_vehicle_name = vehicle_name vehicle, b_plate_number = plate_number vehicle,
       b_location = vehicle_location vehicle, status = ''BOOKED''\<rparr>,
      s\<lparr>booking_counter := booking_counter s + 1\<rparr>)"

text \<open>
  The three loops of the manager scan a list of vehicles in order and return at the
  first vehicle that satisfies the loop's condition: \<open>find\<close> on the list of
  references, with the condition read through the store.
\<close>

definition holds_at :: "VehicleSystem \<Rightarrow> (Vehicle \<Rightarrow> bool) \<Rightarrow> ref \<Rightarrow> bool" where
  "holds_at s P r = (case store s r of None \<Rightarrow> False | Some vehicle \<Rightarrow> P vehicle)"

text \<open>
  \<^verbatim>\<open>createBooking\<close>: the first vehicle at the location with the requested name and
  \<^verbatim>\<open>vehicleisavailable\<close>; the booking is stored under its id and the id returned;
  \<^verbatim>\<open>None\<close> when the loop ends without a match.
\<close>

definition createBooking ::
  "VehicleSystem \<Rightarrow> User \<Rightarrow> string \<Rightarrow> string \<Rightarrow> int option \<times> VehicleSystem" where
  "createBooking s user vname loc =
     (case find (holds_at s (\<lambda>vehicle. vehicle_name vehicle = vname \<and> vehicleisavailable vehicle))
             (getVehicles s loc) of
        None \<Rightarrow> (None, s)
      | Some r \<Rightarrow>
          (case store s r of
             None \<Rightarrow> (None, s)
           | Some vehicle \<Rightarrow>
               (let (booking, s1) = Booking_init s user vehicle
                in (Some (booking_id booking),
                    s1\<lparr>booking_records := (booking_records s1)(booking_id booking \<mapsto> booking)\<rparr>))))"

text \<open>
  \<^verbatim>\<open>rentVehicle\<close>: \<^verbatim>\<open>False\<close> when the booking is missing or not \<^verbatim>\<open>"BOOKED"\<close> (a
  \<^verbatim>\<open>Booking\<close> object is always truthy, so \<^verbatim>\<open>not booking\<close> is the missing key);
  otherwise the first vehicle at the booking's location with the booking's plate
  number that is available is made unavailable and the booking becomes
  \<^verbatim>\<open>"RENTED"\<close>; \<^verbatim>\<open>False\<close> when the loop ends without a match.
\<close>

definition rentVehicle :: "VehicleSystem \<Rightarrow> int \<Rightarrow> bool \<times> VehicleSystem" where
  "rentVehicle s bid =
     (case booking_records s bid of
        None \<Rightarrow> (False, s)
      | Some booking \<Rightarrow>
          if status booking \<noteq> ''BOOKED'' then (False, s)
          else
            (case find (holds_at s (\<lambda>vehicle. plate_number vehicle = b_plate_number booking
                                       \<and> vehicleisavailable vehicle))
                    (getVehicles s (b_location booking)) of
               None \<Rightarrow> (False, s)
             | Some r \<Rightarrow>
                 (case store s r of
                    None \<Rightarrow> (False, s)
                  | Some vehicle \<Rightarrow>
                      (True,
                       s\<lparr>store := (store s)(r \<mapsto> vehicle\<lparr>vehicleisavailable := False\<rparr>),
                         booking_records :=
                           (booking_records s)(bid \<mapsto> booking\<lparr>status := ''RENTED''\<rparr>)\<rparr>))))"

text \<open>
  \<^verbatim>\<open>returnVehicle\<close>: \<^verbatim>\<open>False\<close> when the booking is missing or not \<^verbatim>\<open>"RENTED"\<close>;
  otherwise the first vehicle at the booking's location with the booking's plate
  number is made available and the booking becomes \<^verbatim>\<open>"COMPLETED"\<close>; \<^verbatim>\<open>False\<close> when
  the loop ends without a match.
\<close>

definition returnVehicle :: "VehicleSystem \<Rightarrow> int \<Rightarrow> bool \<times> VehicleSystem" where
  "returnVehicle s bid =
     (case booking_records s bid of
        None \<Rightarrow> (False, s)
      | Some booking \<Rightarrow>
          if status booking \<noteq> ''RENTED'' then (False, s)
          else
            (case find (holds_at s (\<lambda>vehicle. plate_number vehicle = b_plate_number booking))
                    (getVehicles s (b_location booking)) of
               None \<Rightarrow> (False, s)
             | Some r \<Rightarrow>
                 (case store s r of
                    None \<Rightarrow> (False, s)
                  | Some vehicle \<Rightarrow>
                      (True,
                       s\<lparr>store := (store s)(r \<mapsto> vehicle\<lparr>vehicleisavailable := True\<rparr>),
                         booking_records :=
                           (booking_records s)(bid \<mapsto> booking\<lparr>status := ''COMPLETED''\<rparr>)\<rparr>))))"

subsection \<open>Call sequences\<close>

text \<open>
  A client of the module constructs vehicles and calls the four methods. A state is
  reachable when a sequence of such calls leads to it from the empty system.
\<close>

datatype call =
    Call_Vehicle string string string
  | Call_addvehicle ref
  | Call_createBooking User string string
  | Call_rentVehicle int
  | Call_returnVehicle int

fun step :: "VehicleSystem \<Rightarrow> call \<Rightarrow> VehicleSystem" where
  "step s (Call_Vehicle vname plate loc) = snd (new_Vehicle s vname plate loc)"
| "step s (Call_addvehicle r) = snd (addvehicle s r)"
| "step s (Call_createBooking user vname loc) = snd (createBooking s user vname loc)"
| "step s (Call_rentVehicle bid) = snd (rentVehicle s bid)"
| "step s (Call_returnVehicle bid) = snd (returnVehicle s bid)"

definition run :: "call list \<Rightarrow> VehicleSystem" where
  "run calls = foldl step VehicleSystem_init calls"

text \<open>
  \<^verbatim>\<open>Booking.booking_counter\<close> is a class attribute, shared by every system of the
  process and never reset: when a system is built, the counter has the value the
  earlier bookings of the process left (the module books once when it is imported).
  \<open>run_from k\<close> is \<open>run\<close> started with the counter at \<open>k\<close>.
\<close>

definition VehicleSystem_from :: "int \<Rightarrow> VehicleSystem" where
  "VehicleSystem_from k = VehicleSystem_init\<lparr>booking_counter := k\<rparr>"

definition run_from :: "int \<Rightarrow> call list \<Rightarrow> VehicleSystem" where
  "run_from k calls = foldl step (VehicleSystem_from k) calls"

section \<open>ilovepdf.py: the PDF operation tracker\<close>

subsection \<open>Enums and domain models\<close>

text \<open>
  The class \<^verbatim>\<open>User\<close> of this module is the record \<open>PdfUser\<close>. The attributes
  \<^verbatim>\<open>id\<close> of \<^verbatim>\<open>PDFDocument\<close> and \<^verbatim>\<open>id\<close>, \<^verbatim>\<open>user\<close>, \<^verbatim>\<open>type\<close>, \<^verbatim>\<open>status\<close> of
  \<^verbatim>\<open>Operation\<close> carry the prefixes \<open>doc_\<close> and \<open>op_\<close>. Pages are opaque tokens of
  any type \<open>'p\<close>. An identifier made by \<^verbatim>\<open>str(uuid.uuid4())\<close> is an argument of the
  function that makes it, and nothing is assumed about it, not even that it is fresh.

  The methods of \<^verbatim>\<open>UserPdfManager\<close> have no annotation and no check on their
  \<^verbatim>\<open>pdf\<close> arguments: a value passed as a PDF is a \<^verbatim>\<open>PDFDocument\<close> (\<open>Some\<close>) or
  Python's \<^verbatim>\<open>None\<close> (\<open>None\<close>). The attribute \<^verbatim>\<open>output_file\<close> holds such a value too.
\<close>

datatype OperationType = MERGE | COMPRESS | WATERMARK

datatype OperationStatus = PENDING | COMPLETED | FAILED

record PdfUser =
  pdf_username :: string

record 'p PDFDocument =
  doc_id :: string
  name :: string
  pages :: "'p list"

record 'p Operation =
  op_id :: string
  op_user :: string
  op_type :: OperationType
  input_files :: "'p PDFDocument option list"
  output_file :: "'p PDFDocument option"
  op_status :: OperationStatus

text \<open>\<^verbatim>\<open>Operation.__init__\<close>: no output, status \<^verbatim>\<open>PENDING\<close>.\<close>

definition Operation_init ::
  "string \<Rightarrow> PdfUser \<Rightarrow> OperationType \<Rightarrow> 'p PDFDocument option list \<Rightarrow> 'p Operation" where
  "Operation_init uid user t files =
     \<lparr>op_id = uid, op_user = pdf_username user, op_type = t, input_files = files,
      output_file = None, op_status = PENDING\<rparr>"

text \<open>\<^verbatim>\<open>mark_completed\<close> stores the value it is given, whatever it is.\<close>

definition mark_completed :: "'p Operation \<Rightarrow> 'p PDFDocument option \<Rightarrow> 'p Operation" where
  "mark_completed operation output = operation\<lparr>output_file := output, op_status := COMPLETED\<rparr>"

definition mark_failed :: "'p Operation \<Rightarrow> 'p Operation" where
  "mark_failed operation = operation\<lparr>op_status := FAILED\<rparr>"

subsection \<open>Operation objects and the repository\<close>

text \<open>
  An \<^verbatim>\<open>Operation\<close> is created, saved in the repository and marked afterwards through
  the method's local variable: the repository holds a reference to the object. So the
  objects live in a store (\<open>objects\<close>, with \<open>next_object\<close> the next unused
  reference) and the dictionary \<^verbatim>\<open>OperationRepository.operations\<close> maps an id to a
  reference. A method reaches the object through the reference; a reference that
  points to no object cannot occur in Python, and nothing happens there.
\<close>

record 'p PdfMemory =
  objects :: "ref \<rightharpoonup> 'p Operation"
  next_object :: ref
  operations :: "string \<rightharpoonup> ref"

definition PdfMemory_init :: "'p PdfMemory" where
  "PdfMemory_init = \<lparr>objects = Map.empty, next_object = 0, operations = Map.empty\<rparr>"

text \<open>The expression \<^verbatim>\<open>Operation(user, op_type, input_files)\<close>: allocates the object.\<close>

definition new_Operation ::
  "'p PdfMemory \<Rightarrow> string \<Rightarrow> PdfUser \<Rightarrow> OperationType \<Rightarrow> 'p PDFDocument option list \<Rightarrow>
     ref \<times> 'p PdfMemory" where
  "new_Operation mem uid user t files =
     (next_object mem,
      mem\<lparr>objects := (objects mem)(next_object mem \<mapsto> Operation_init uid user t files),
          next_object := Suc (next_object mem)\<rparr>)"

text \<open>A method of the object at \<open>r\<close> that updates it, and the attribute \<^verbatim>\<open>id\<close> read from it.\<close>

definition mutate :: "('p Operation \<Rightarrow> 'p Operation) \<Rightarrow> 'p PdfMemory \<Rightarrow> ref \<Rightarrow> 'p PdfMemory" where
  "mutate f mem r =
     (case objects mem r of
        None \<Rightarrow> mem
      | Some operation \<Rightarrow> mem\<lparr>objects := (objects mem)(r \<mapsto> f operation)\<rparr>)"

definition id_of :: "'p PdfMemory \<Rightarrow> ref \<Rightarrow> string" where
  "id_of mem r = (case objects mem r of None \<Rightarrow> [] | Some operation \<Rightarrow> op_id operation)"

text \<open>\<^verbatim>\<open>save\<close>: \<^verbatim>\<open>operations[operation.id] = operation\<close>; \<^verbatim>\<open>get\<close>: \<^verbatim>\<open>operations.get(operation_id)\<close>.\<close>

definition save :: "'p PdfMemory \<Rightarrow> ref \<Rightarrow> 'p PdfMemory" where
  "save mem r = mem\<lparr>operations := (operations mem)(id_of mem r \<mapsto> r)\<rparr>"

definition get :: "'p PdfMemory \<Rightarrow> string \<Rightarrow> 'p Operation option" where
  "get mem operation_id =
     (case operations mem operation_id of None \<Rightarrow> None | Some r \<Rightarrow> objects mem r)"

subsection \<open>PDFService\<close>

text \<open>
  The manager calls the service through its attribute \<^verbatim>\<open>pdf_service\<close>, inside
  \<^verbatim>\<open>try\<close> ... \<^verbatim>\<open>except Exception\<close>. A service object is the record of its three
  methods, and a call either returns a value (\<open>Inr\<close>) or raises (\<open>Inl\<close>). A raised
  object is an instance of \<^verbatim>\<open>Exception\<close>, which the \<^verbatim>\<open>except\<close> clause catches, or an
  instance of \<^verbatim>\<open>BaseException\<close> outside \<^verbatim>\<open>Exception\<close> (\<^verbatim>\<open>KeyboardInterrupt\<close>,
  \<^verbatim>\<open>SystemExit\<close>, \<^verbatim>\<open>GeneratorExit\<close>), which it does not catch; the string is the
  name of the class. The class \<^verbatim>\<open>PDFService\<close> of the source is the service
  \<open>PDFService_init\<close>. \<^verbatim>\<open>page_range\<close> is not read by the source.
\<close>

datatype py_exception = Exception string | BaseException string

type_synonym page_range = "(int \<times> int) option"

record 'p PDFService =
  merge :: "string \<Rightarrow> 'p PDFDocument option \<Rightarrow> 'p PDFDocument option \<Rightarrow>
              py_exception + 'p PDFDocument option"
  compress :: "'p PDFDocument option \<Rightarrow> py_exception + 'p PDFDocument option"
  watermark :: "'p PDFDocument option \<Rightarrow> page_range \<Rightarrow> py_exception + 'p PDFDocument option"

text \<open>
  \<^verbatim>\<open>merge\<close>: \<^verbatim>\<open>pdf1.pages + pdf2.pages\<close> raises \<^verbatim>\<open>AttributeError\<close> on \<^verbatim>\<open>None\<close>;
  otherwise a new document \<^verbatim>\<open>"merged.pdf"\<close> with the pages of both, in order.
  \<^verbatim>\<open>compress\<close> and \<^verbatim>\<open>add_watermark\<close> return their argument, \<^verbatim>\<open>None\<close> included.
\<close>

definition PDFService_merge ::
  "string \<Rightarrow> 'p PDFDocument option \<Rightarrow> 'p PDFDocument option \<Rightarrow>
     py_exception + 'p PDFDocument option" where
  "PDFService_merge uid pdf1 pdf2 =
     (case pdf1 of
        None \<Rightarrow> Inl (Exception ''AttributeError'')
      | Some document1 \<Rightarrow>
          (case pdf2 of
             None \<Rightarrow> Inl (Exception ''AttributeError'')
           | Some document2 \<Rightarrow>
               (let merged_pages = pages document1 @ pages document2
                in Inr (Some \<lparr>doc_id = uid, name = ''merged.pdf'', pages = merged_pages\<rparr>))))"

definition PDFService_compress ::
  "'p PDFDocument option \<Rightarrow> py_exception + 'p PDFDocument option" where
  "PDFService_compress pdf = Inr pdf"

definition PDFService_add_watermark ::
  "'p PDFDocument option \<Rightarrow> page_range \<Rightarrow> py_exception + 'p PDFDocument option" where
  "PDFService_add_watermark pdf page_range = Inr pdf"

definition PDFService_init :: "'p PDFService" where
  "PDFService_init =
     \<lparr>merge = PDFService_merge, compress = PDFService_compress,
      watermark = PDFService_add_watermark\<rparr>"

subsection \<open>UserPdfManager\<close>

record 'p UserPdfManager =
  user :: PdfUser
  pdf_service :: "'p PDFService"
  user_operations :: "string \<rightharpoonup> string list"

definition UserPdfManager_init :: "PdfUser \<Rightarrow> 'p UserPdfManager" where
  "UserPdfManager_init u =
     \<lparr>user = u, pdf_service = PDFService_init, user_operations = Map.empty\<rparr>"

text \<open>
  \<^verbatim>\<open>_record_operation\<close>: saves the operation and appends its id to the list of the
  manager's user (\<^verbatim>\<open>setdefault(username, []).append(operation.id)\<close>).
\<close>

definition record_operation ::
  "'p UserPdfManager \<Rightarrow> 'p PdfMemory \<Rightarrow> ref \<Rightarrow> 'p UserPdfManager \<times> 'p PdfMemory" where
  "record_operation mgr mem r =
     (mgr\<lparr>user_operations :=
            (user_operations mgr)
              (pdf_username (user mgr) \<mapsto>
                 (case user_operations mgr (pdf_username (user mgr)) of None \<Rightarrow> [] | Some ids \<Rightarrow> ids)
                 @ [id_of mem r])\<rparr>,
      save mem r)"

text \<open>
  The block \<^verbatim>\<open>try: result = ...; operation.mark_completed(result)\<close>
  \<^verbatim>\<open>except Exception: operation.mark_failed()\<close>, applied to the outcome of the
  service call: the exception that leaves the block, if one does, and the store.
\<close>

definition guarded ::
  "'p PdfMemory \<Rightarrow> ref \<Rightarrow> py_exception + 'p PDFDocument option \<Rightarrow>
     py_exception option \<times> 'p PdfMemory" where
  "guarded mem r outcome =
     (case outcome of
        Inr result \<Rightarrow> (None, mutate (\<lambda>operation. mark_completed operation result) mem r)
      | Inl (Exception cls) \<Rightarrow> (None, mutate mark_failed mem r)
      | Inl (BaseException cls) \<Rightarrow> (Some (BaseException cls), mem))"

text \<open>
  After the block: an exception that left it leaves the method; otherwise
  \<^verbatim>\<open>return operation.id\<close>.
\<close>

definition finish ::
  "'p UserPdfManager \<Rightarrow> ref \<Rightarrow> py_exception option \<times> 'p PdfMemory \<Rightarrow>
     (py_exception + string) \<times> 'p UserPdfManager \<times> 'p PdfMemory" where
  "finish mgr r done =
     (case done of
        (Some e, mem) \<Rightarrow> (Inl e, mgr, mem)
      | (None, mem) \<Rightarrow> (Inr (id_of mem r), mgr, mem))"

text \<open>
  \<^verbatim>\<open>merge_pdf\<close>, \<^verbatim>\<open>compress_pdf\<close>, \<^verbatim>\<open>add_watermark\<close>: the operation is created,
  recorded while \<^verbatim>\<open>PENDING\<close>, then marked. The result is the returned id or the
  exception that left the method, with the manager and the store after the call.
\<close>

definition merge_pdf ::
  "'p UserPdfManager \<Rightarrow> 'p PdfMemory \<Rightarrow> string \<Rightarrow> string \<Rightarrow>
     'p PDFDocument option \<Rightarrow> 'p PDFDocument option \<Rightarrow>
     (py_exception + string) \<times> 'p UserPdfManager \<times> 'p PdfMemory" where
  "merge_pdf mgr mem uid doc_uid pdf1 pdf2 =
     (let (operation, mem1) = new_Operation mem uid (user mgr) MERGE [pdf1, pdf2];
          (mgr1, mem2) = record_operation mgr mem1 operation
      in finish mgr1 operation
           (guarded mem2 operation (merge (pdf_service mgr) doc_uid pdf1 pdf2)))"

definition compress_pdf ::
  "'p UserPdfManager \<Rightarrow> 'p PdfMemory \<Rightarrow> string \<Rightarrow> 'p PDFDocument option \<Rightarrow>
     (py_exception + string) \<times> 'p UserPdfManager \<times> 'p PdfMemory" where
  "compress_pdf mgr mem uid pdf =
     (let (operation, mem1) = new_Operation mem uid (user mgr) COMPRESS [pdf];
          (mgr1, mem2) = record_operation mgr mem1 operation
      in finish mgr1 operation
           (guarded mem2 operation (compress (pdf_service mgr) pdf)))"

definition add_watermark ::
  "'p UserPdfManager \<Rightarrow> 'p PdfMemory \<Rightarrow> string \<Rightarrow> 'p PDFDocument option \<Rightarrow> page_range \<Rightarrow>
     (py_exception + string) \<times> 'p UserPdfManager \<times> 'p PdfMemory" where
  "add_watermark mgr mem uid pdf page_range =
     (let (operation, mem1) = new_Operation mem uid (user mgr) WATERMARK [pdf];
          (mgr1, mem2) = record_operation mgr mem1 operation
      in finish mgr1 operation
           (guarded mem2 operation (watermark (pdf_service mgr) pdf page_range)))"

text \<open>
  \<^verbatim>\<open>download_result\<close>: the output of a stored operation whose status is
  \<^verbatim>\<open>COMPLETED\<close>, \<^verbatim>\<open>None\<close> otherwise (an \<^verbatim>\<open>Operation\<close> object is always truthy).
\<close>

definition download_result ::
  "'p UserPdfManager \<Rightarrow> 'p PdfMemory \<Rightarrow> string \<Rightarrow> 'p PDFDocument option" where
  "download_result mgr mem operation_id =
     (case get mem operation_id of
        None \<Rightarrow> None
      | Some operation \<Rightarrow>
          if op_status operation = COMPLETED then output_file operation else None)"

subsection \<open>Call sequences\<close>

text \<open>
  A call changes the state also when an exception leaves it; a caller that catches the
  exception goes on with that state.
\<close>

datatype 'p pdf_call =
    Call_merge_pdf string string "'p PDFDocument option" "'p PDFDocument option"
  | Call_compress_pdf string "'p PDFDocument option"
  | Call_add_watermark string "'p PDFDocument option" page_range
  | Call_download_result string

fun pdf_step ::
  "'p UserPdfManager \<times> 'p PdfMemory \<Rightarrow> 'p pdf_call \<Rightarrow> 'p UserPdfManager \<times> 'p PdfMemory" where
  "pdf_step (mgr, mem) (Call_merge_pdf uid doc_uid pdf1 pdf2) =
     snd (merge_pdf mgr mem uid doc_uid pdf1 pdf2)"
| "pdf_step (mgr, mem) (Call_compress_pdf uid pdf) = snd (compress_pdf mgr mem uid pdf)"
| "pdf_step (mgr, mem) (Call_add_watermark uid pdf page_range) =
     snd (add_watermark mgr mem uid pdf page_range)"
| "pdf_step (mgr, mem) (Call_download_result operation_id) = (mgr, mem)"

definition pdf_run ::
  "'p UserPdfManager \<Rightarrow> 'p pdf_call list \<Rightarrow> 'p UserPdfManager \<times> 'p PdfMemory" where
  "pdf_run mgr calls = foldl pdf_step (mgr, PdfMemory_init) calls"

section \<open>Properties stated about the two programs\<close>

subsection \<open>Vehicle rental\<close>

text \<open>A vehicle belongs to the system when a location's list holds a reference to it.\<close>

definition in_system :: "VehicleSystem \<Rightarrow> ref \<Rightarrow> bool" where
  "in_system s r = (\<exists>loc. r \<in> set (getVehicles s loc))"

text \<open>
  What every reachable state satisfies: objects are allocated below \<open>next_ref\<close>; a
  listed reference points to a vehicle of that location; a stored booking has an id
  below the counter and a vehicle with its plate number is listed at its location; a
  vehicle that was never added is available.
\<close>

definition well_formed :: "VehicleSystem \<Rightarrow> bool" where
  "well_formed s \<longleftrightarrow>
     (\<forall>r vehicle. store s r = Some vehicle \<longrightarrow> r < next_ref s) \<and>
     (\<forall>loc. \<forall>r\<in>set (getVehicles s loc). \<exists>vehicle. store s r = Some vehicle \<and> vehicle_location vehicle = loc) \<and>
     (\<forall>bid booking. booking_records s bid = Some booking \<longrightarrow>
        bid < booking_counter s \<and>
        (\<exists>r\<in>set (getVehicles s (b_location booking)). \<exists>vehicle.
           store s r = Some vehicle \<and> plate_number vehicle = b_plate_number booking)) \<and>
     (\<forall>r vehicle. store s r = Some vehicle \<and> \<not> in_system s r \<longrightarrow> vehicleisavailable vehicle)"

text \<open>No two distinct vehicles of the system share a plate number.\<close>

definition unique_plates :: "VehicleSystem \<Rightarrow> bool" where
  "unique_plates s \<longleftrightarrow>
     (\<forall>r1 r2 v1 v2. in_system s r1 \<and> in_system s r2 \<and> store s r1 = Some v1 \<and> store s r2 = Some v2 \<and>
        plate_number v1 = plate_number v2 \<longrightarrow> r1 = r2)"

text \<open>The ids of the stored bookings that reference a plate number with status \<^verbatim>\<open>"RENTED"\<close>.\<close>

definition rented_bookings :: "(int \<rightharpoonup> Booking) \<Rightarrow> string \<Rightarrow> int set" where
  "rented_bookings records plate =
     {bid. \<exists>booking. records bid = Some booking \<and> b_plate_number booking = plate \<and>
             status booking = ''RENTED''}"

definition rental_inv :: "VehicleSystem \<Rightarrow> bool" where
  "rental_inv s \<longleftrightarrow>
     (\<forall>r vehicle. in_system s r \<and> store s r = Some vehicle \<longrightarrow>
        (if vehicleisavailable vehicle then rented_bookings (booking_records s) (plate_number vehicle) = {}
         else \<exists>bid. rented_bookings (booking_records s) (plate_number vehicle) = {bid}))"

text \<open>
  The invariant of the data model: a vehicle of the system is unavailable exactly when
  exactly one stored booking references its plate number with status \<^verbatim>\<open>"RENTED"\<close>.
\<close>

definition unavailable_iff_rented :: "VehicleSystem \<Rightarrow> bool" where
  "unavailable_iff_rented s \<longleftrightarrow>
     (\<forall>loc r vehicle. r \<in> set (getVehicles s loc) \<and> store s r = Some vehicle \<longrightarrow>
        (\<not> vehicleisavailable vehicle) =
        (\<exists>!bid. \<exists>booking. booking_records s bid = Some booking \<and>
           b_plate_number booking = plate_number vehicle \<and> status booking = ''RENTED''))"

text \<open>
  An unavailable vehicle becomes available by no call but a \<^verbatim>\<open>returnVehicle\<close> of a
  \<^verbatim>\<open>"RENTED"\<close> booking that references its plate number, which that call completes.
\<close>

definition available_again_only_by_return :: "VehicleSystem \<Rightarrow> bool" where
  "available_again_only_by_return s \<longleftrightarrow>
     (\<forall>c r vehicle vehicle'.
        store s r = Some vehicle \<and> \<not> vehicleisavailable vehicle \<and>
        store (step s c) r = Some vehicle' \<and> vehicleisavailable vehicle' \<longrightarrow>
        (\<exists>bid booking. c = Call_returnVehicle bid \<and> booking_records s bid = Some booking \<and>
           status booking = ''RENTED'' \<and> b_plate_number booking = plate_number vehicle \<and>
           booking_records (step s c) bid = Some (booking\<lparr>status := ''COMPLETED''\<rparr>)))"

text \<open>
  For each available vehicle with the requested name at the location: booking, renting
  the booking and returning it succeed in turn, the vehicle is available afterwards
  and the booking is \<^verbatim>\<open>"COMPLETED"\<close>.
\<close>

definition book_rent_return_restores :: "VehicleSystem \<Rightarrow> User \<Rightarrow> string \<Rightarrow> string \<Rightarrow> bool" where
  "book_rent_return_restores s usr vname loc \<longleftrightarrow>
     (\<forall>r vehicle.
        r \<in> set (getVehicles s loc) \<and> store s r = Some vehicle \<and>
        vehicle_name vehicle = vname \<and> vehicleisavailable vehicle \<longrightarrow>
        (\<exists>bid s1 s2 s3 booking.
           createBooking s usr vname loc = (Some bid, s1) \<and>
           rentVehicle s1 bid = (True, s2) \<and>
           returnVehicle s2 bid = (True, s3) \<and>
           map_option vehicleisavailable (store s3 r) = Some True \<and>
           booking_records s3 bid = Some booking \<and> status booking = ''COMPLETED''))"

subsection \<open>PDF operations\<close>

text \<open>
  The outcome of a service call as the result \<open>res\<close> of a manager method records it.
  When the call returned, the method returns the operation's id and the repository
  holds the operation under that id, \<^verbatim>\<open>COMPLETED\<close> with the returned value as output.
  When the call raised an instance of \<^verbatim>\<open>Exception\<close>, the method returns the id and
  the operation is \<^verbatim>\<open>FAILED\<close> with no output. When it raised another
  \<^verbatim>\<open>BaseException\<close>, that exception leaves the method and the operation stays
  stored as \<^verbatim>\<open>PENDING\<close>.
\<close>

definition recorded_outcome ::
  "'p UserPdfManager \<Rightarrow> string \<Rightarrow> OperationType \<Rightarrow> 'p PDFDocument option list \<Rightarrow>
     py_exception + 'p PDFDocument option \<Rightarrow>
     (py_exception + string) \<times> 'p UserPdfManager \<times> 'p PdfMemory \<Rightarrow> bool" where
  "recorded_outcome mgr uid t files outcome res \<longleftrightarrow>
     (\<forall>result. outcome = Inr result \<longrightarrow>
        fst res = Inr uid \<and>
        get (snd (snd res)) uid =
          Some \<lparr>op_id = uid, op_user = pdf_username (user mgr), op_type = t, input_files = files,
                output_file = result, op_status = COMPLETED\<rparr>) \<and>
     (\<forall>cls. outcome = Inl (Exception cls) \<longrightarrow>
        fst res = Inr uid \<and>
        get (snd (snd res)) uid =
          Some \<lparr>op_id = uid, op_user = pdf_username (user mgr), op_type = t, input_files = files,
                output_file = None, op_status = FAILED\<rparr>) \<and>
     (\<forall>cls. outcome = Inl (BaseException cls) \<longrightarrow>
        fst res = Inl (BaseException cls) \<and>
        get (snd (snd res)) uid =
          Some \<lparr>op_id = uid, op_user = pdf_username (user mgr), op_type = t, input_files = files,
                output_file = None, op_status = PENDING\<rparr>)"

text \<open>A fault swallowed: the id is returned and the operation is \<^verbatim>\<open>FAILED\<close> with no output.\<close>

definition swallowed ::
  "string \<Rightarrow> (py_exception + string) \<times> 'p UserPdfManager \<times> 'p PdfMemory \<Rightarrow> bool" where
  "swallowed uid res \<longleftrightarrow>
     fst res = Inr uid \<and>
     (\<exists>operation. get (snd (snd res)) uid = Some operation \<and> op_status operation = FAILED \<and>
        output_file operation = None)"

definition output_iff_completed :: "'p PdfMemory \<Rightarrow> bool" where
  "output_iff_completed mem \<longleftrightarrow>
     (\<forall>operation_id operation. get mem operation_id = Some operation \<longrightarrow>
        (output_file operation \<noteq> None) = (op_status operation = COMPLETED))"

definition no_output_unless_completed :: "'p PdfMemory \<Rightarrow> bool" where
  "no_output_unless_completed mem \<longleftrightarrow>
     (\<forall>operation_id operation. get mem operation_id = Some operation \<and>
        (op_status operation = PENDING \<or> op_status operation = FAILED) \<longrightarrow>
        output_file operation = None)"

definition never_pending :: "'p PdfMemory \<Rightarrow> bool" where
  "never_pending mem \<longleftrightarrow>
     (\<forall>operation_id operation. get mem operation_id = Some operation \<longrightarrow>
        op_status operation = COMPLETED \<or> op_status operation = FAILED)"

text \<open>A call that does not pass \<^verbatim>\<open>None\<close> to \<^verbatim>\<open>compress_pdf\<close> or \<^verbatim>\<open>add_watermark\<close>.\<close>

fun passes_document :: "'p pdf_call \<Rightarrow> bool" where
  "passes_document (Call_compress_pdf uid pdf) = (pdf \<noteq> None)"
| "passes_document (Call_add_watermark uid pdf page_range) = (pdf \<noteq> None)"
| "passes_document (Call_merge_pdf uid doc_uid pdf1 pdf2) = True"
| "passes_document (Call_download_result operation_id) = True"

text \<open>A service that raises nothing but instances of \<^verbatim>\<open>Exception\<close>.\<close>

definition raises_only_Exception :: "'p PDFService \<Rightarrow> bool" where
  "raises_only_Exception service \<longleftrightarrow>
     (\<forall>uid pdf1 pdf2 cls. merge service uid pdf1 pdf2 \<noteq> Inl (BaseException cls)) \<and>
     (\<forall>pdf cls. compress service pdf \<noteq> Inl (BaseException cls)) \<and>
     (\<forall>pdf page_range cls. watermark service pdf page_range \<noteq> Inl (BaseException cls))"

text \<open>What a manager method leaves behind, in one piece.\<close>

definition every_object :: "('p Operation \<Rightarrow> bool) \<Rightarrow> 'p PdfMemory \<Rightarrow> bool" where
  "every_object P mem \<longleftrightarrow> (\<forall>r operation. objects mem r = Some operation \<longrightarrow> P operation)"

definition marked :: "'p Operation \<Rightarrow> py_exception + 'p PDFDocument option \<Rightarrow> 'p Operation" where
  "marked operation outcome =
     (case outcome of
        Inr result \<Rightarrow> mark_completed operation result
      | Inl (Exception cls) \<Rightarrow> mark_failed operation
      | Inl (BaseException cls) \<Rightarrow> operation)"

definition result_of :: "string \<Rightarrow> py_exception + 'p PDFDocument option \<Rightarrow> py_exception + string" where
  "result_of uid outcome =
     (case outcome of
        Inr result \<Rightarrow> Inr uid
      | Inl (Exception cls) \<Rightarrow> Inr uid
      | Inl (BaseException cls) \<Rightarrow> Inl (BaseException cls))"

definition after_call ::
  "'p PdfMemory \<Rightarrow> string \<Rightarrow> 'p Operation \<Rightarrow> 'p PdfMemory" where
  "after_call mem uid operation =
     mem\<lparr>objects := (objects mem)(next_object mem \<mapsto> operation),
         next_object := Suc (next_object mem),
         operations := (operations mem)(uid \<mapsto> next_object mem)\<rparr>"

section \<open>Concrete systems\<close>

definition demo_user :: User where
  "demo_user = \<lparr>username = ''prateek'', location = ''Bangalore''\<rparr>"

definition car_KA01 :: Vehicle where
  "car_KA01 = \<lparr>vehicle_name = ''Car'', plate_number = ''KA01'',
               vehicle_location = ''Bangalore'', vehicleisavailable = True\<rparr>"

definition bike_KA02 :: Vehicle where
  "bike_KA02 = \<lparr>vehicle_name = ''Bike'', plate_number = ''KA02'',
               vehicle_location = ''Bangalore'', vehicleisavailable = True\<rparr>"

definition booking_1 :: Booking where
  "booking_1 = \<lparr>booking_id = 1, b_username = ''prateek'', b_vehicle_name = ''Car'',
                b_plate_number = ''KA01'', b_location = ''Bangalore'', status = ''BOOKED''\<rparr>"

text \<open>The demo's first vehicle alone, then booked, rented and returned.\<close>

definition single_car_calls :: "call list" where
  "single_car_calls = [Call_Vehicle ''Car'' ''KA01'' ''Bangalore'', Call_addvehicle 0]"

definition single_car_state :: VehicleSystem where
  "single_car_state =
     \<lparr>store = [0 \<mapsto> car_KA01], next_ref = 1,
      vehicle_loc_hashmap = [''Bangalore'' \<mapsto> [0]],
      booking_records = Map.empty, booking_counter = 1\<rparr>"

definition booked_state :: VehicleSystem where
  "booked_state = single_car_state\<lparr>booking_records := [1 \<mapsto> booking_1], booking_counter := 2\<rparr>"

definition rented_state :: VehicleSystem where
  "rented_state =
     booked_state\<lparr>store := [0 \<mapsto> car_KA01\<lparr>vehicleisavailable := False\<rparr>],
                  booking_records := [1 \<mapsto> booking_1\<lparr>status := ''RENTED''\<rparr>]\<rparr>"

definition returned_state :: VehicleSystem where
  "returned_state =
     rented_state\<lparr>store := [0 \<mapsto> car_KA01],
                  booking_records := [1 \<mapsto> booking_1\<lparr>status := ''COMPLETED''\<rparr>]\<rparr>"

text \<open>The demo's two vehicles, the car booked and rented.\<close>

definition rented_calls :: "call list" where
  "rented_calls =
     [Call_Vehicle ''Car'' ''KA01'' ''Bangalore'', Call_addvehicle 0,
      Call_Vehicle ''Bike'' ''KA02'' ''Bangalore'', Call_addvehicle 1,
      Call_createBooking demo_user ''Car'' ''Bangalore'', Call_rentVehicle 1]"

text \<open>Two cars with one plate number, the first booked and rented.\<close>

definition twin_plate_calls :: "call list" where
  "twin_plate_calls =
     [Call_Vehicle ''Car'' ''KA01'' ''Bangalore'', Call_addvehicle 0,
      Call_Vehicle ''Car'' ''KA01'' ''Bangalore'', Call_addvehicle 1,
      Call_createBooking demo_user ''Car'' ''Bangalore'', Call_rentVehicle 1]"

text \<open>
  A bike is booked and rented; then a car with the bike's plate number is added at the
  same location.
\<close>

definition shared_plate_calls :: "call list" where
  "shared_plate_calls =
     [Call_Vehicle ''Bike'' ''KA01'' ''Bangalore'', Call_addvehicle 0,
      Call_createBooking demo_user ''Bike'' ''Bangalore'', Call_rentVehicle 1,
      Call_Vehicle ''Car'' ''KA01'' ''Bangalore'', Call_addvehicle 1]"

text \<open>
  The demo of \<^verbatim>\<open>ilovepdf.py\<close>, a service whose every method raises
  \<^verbatim>\<open>MemoryError\<close> and one whose every method raises \<^verbatim>\<open>KeyboardInterrupt\<close>.
\<close>

definition alex :: PdfUser where
  "alex = \<lparr>pdf_username = ''alex''\<rparr>"

definition file1 :: "int PDFDocument" where
  "file1 = \<lparr>doc_id = ''f1'', name = ''file1.pdf'', pages = [1, 2, 3]\<rparr>"

definition file2 :: "int PDFDocument" where
  "file2 = \<lparr>doc_id = ''f2'', name = ''file2.pdf'', pages = [4, 5]\<rparr>"

definition failing_service :: "int PDFService" where
  "failing_service =
     \<lparr>merge = (\<lambda>uid pdf1 pdf2. Inl (Exception ''MemoryError'')),
      compress = (\<lambda>pdf. Inl (Exception ''MemoryError'')),
      watermark = (\<lambda>pdf page_range. Inl (Exception ''MemoryError''))\<rparr>"

definition interrupted_service :: "int PDFService" where
  "interrupted_service =
     \<lparr>merge = (\<lambda>uid pdf1 pdf2. Inl (BaseException ''KeyboardInterrupt'')),
      compress = (\<lambda>pdf. Inl (BaseException ''KeyboardInterrupt'')),
      watermark = (\<lambda>pdf page_range. Inl (BaseException ''KeyboardInterrupt''))\<rparr>"

definition alex_mgr :: "int UserPdfManager" where
  "alex_mgr = UserPdfManager_init alex"

definition failing_mgr :: "int UserPdfManager" where
  "failing_mgr = alex_mgr\<lparr>pdf_service := failing_service\<rparr>"

definition interrupted_mgr :: "int UserPdfManager" where
  "interrupted_mgr = alex_mgr\<lparr>pdf_service := interrupted_service\<rparr>"

definition merged_op :: "int Operation" where
  "merged_op =
     \<lparr>op_id = ''op1'', op_user = ''alex'', op_type = MERGE, input_files = [Some file1, Some file2],
      output_file = Some \<lparr>doc_id = ''m1'', name = ''merged.pdf'', pages = [1, 2, 3, 4, 5]\<rparr>,
      op_status = COMPLETED\<rparr>"

definition failed_op :: "int Operation" where
  "failed_op =
     \<lparr>op_id = ''op2'', op_user = ''alex'', op_type = COMPRESS, input_files = [Some file1],
      output_file = None, op_status = FAILED\<rparr>"

definition pending_op :: "int Operation" where
  "pending_op =
     \<lparr>op_id = ''op2'', op_user = ''alex'', op_type = COMPRESS, input_files = [Some file1],
      output_file = None, op_status = PENDING\<rparr>"

definition completed_None_op :: "int Operation" where
  "completed_None_op =
     \<lparr>op_id = ''op2'', op_user = ''alex'', op_type = COMPRESS, input_files = [None],
      output_file = None, op_status = COMPLETED\<rparr>"

definition demo_memory :: "int PdfMemory" where
  "demo_memory =
     \<lparr>objects = [0 \<mapsto> merged_op, 1 \<mapsto> failed_op], next_object = 2,
      operations = [''op1'' \<mapsto> 0, ''op2'' \<mapsto> 1]\<rparr>"

definition demo_pdf_calls :: "int pdf_call list" where
  "demo_pdf_calls =
     [Call_merge_pdf ''op1'' ''m1'' (Some file1) (Some file2), Call_download_result ''op1'',
      Call_compress_pdf ''op2'' (Some file1), Call_add_watermark ''op3'' (Some file2) None]"

section \<open>Vehicle rental: the methods one by one\<close>

subsection \<open>Scanning a list\<close>

lemma find_first:
  assumes "i < length xs" "P (xs ! i)" "\<forall>j<i. \<not> P (xs ! j)"
  shows "find P xs = Some (xs ! i)"
  using assms by (auto simp: find_Some_iff)

lemma find_SomeD: "find P xs = Some x \<Longrightarrow> x \<in> set xs \<and> P x"
  by (auto simp: find_Some_iff)

lemma find_not_None: "x \<in> set xs \<Longrightarrow> P x \<Longrightarrow> find P xs \<noteq> None"
  by (auto simp: find_None_iff)

lemma holds_atD: "holds_at s P r \<Longrightarrow> \<exists>vehicle. store s r = Some vehicle \<and> P vehicle"
  by (simp add: holds_at_def split: option.splits)

lemma holds_atI: "store s r = Some vehicle \<Longrightarrow> P vehicle \<Longrightarrow> holds_at s P r"
  by (simp add: holds_at_def)

subsection \<open>The outcomes of each method\<close>

lemma addvehicle_cases:
  obtains (dangling) "store s r = None" "addvehicle s r = (False, s)"
  | (added) vehicle :: Vehicle where "store s r = Some vehicle"
      "addvehicle s r = (True, s\<lparr>vehicle_loc_hashmap :=
               (vehicle_loc_hashmap s)
                 (vehicle_location vehicle \<mapsto> getVehicles s (vehicle_location vehicle) @ [r])\<rparr>)"
  by (cases "store s r") (simp_all add: addvehicle_def)

lemma createBooking_cases:
  obtains (not_found) "createBooking s usr vname loc = (None, s)"
  | (booked) r and vehicle :: Vehicle where
      "r \<in> set (getVehicles s loc)" "store s r = Some vehicle"
      "vehicle_name vehicle = vname" "vehicleisavailable vehicle"
      "createBooking s usr vname loc =
        (Some (booking_counter s),
         s\<lparr>booking_records := (booking_records s)(booking_counter s \<mapsto>
              \<lparr>booking_id = booking_counter s, b_username = username usr,
               b_vehicle_name = vehicle_name vehicle, b_plate_number = plate_number vehicle,
               b_location = vehicle_location vehicle, status = ''BOOKED''\<rparr>),
           booking_counter := booking_counter s + 1\<rparr>)"
proof (cases "find (holds_at s (\<lambda>vehicle. vehicle_name vehicle = vname \<and> vehicleisavailable vehicle))
             (getVehicles s loc)")
  case None
  then show ?thesis by (intro not_found) (simp add: createBooking_def)
next
  case (Some r)
  from find_SomeD [OF Some] holds_atD [of s _ r]
  obtain vehicle where v: "r \<in> set (getVehicles s loc)" "store s r = Some vehicle"
    "vehicle_name vehicle = vname" "vehicleisavailable vehicle"
    by blast
  with Some show ?thesis
    by (intro booked [of r vehicle]) (simp_all add: createBooking_def Booking_init_def)
qed

lemma rentVehicle_cases:
  obtains (failed) "rentVehicle s bid = (False, s)"
  | (rented) booking :: Booking and r and vehicle :: Vehicle where
      "booking_records s bid = Some booking" "status booking = ''BOOKED''"
      "r \<in> set (getVehicles s (b_location booking))" "store s r = Some vehicle"
      "plate_number vehicle = b_plate_number booking" "vehicleisavailable vehicle"
      "rentVehicle s bid =
        (True,
         s\<lparr>store := (store s)(r \<mapsto> vehicle\<lparr>vehicleisavailable := False\<rparr>),
           booking_records := (booking_records s)(bid \<mapsto> booking\<lparr>status := ''RENTED''\<rparr>)\<rparr>)"
proof (cases "booking_records s bid")
  case None
  then show ?thesis by (intro failed) (simp add: rentVehicle_def)
next
  case (Some booking)
  show ?thesis
  proof (cases "find (holds_at s (\<lambda>vehicle. plate_number vehicle = b_plate_number booking
                                       \<and> vehicleisavailable vehicle))
                    (getVehicles s (b_location booking))")
    case None
    with Some show ?thesis by (intro failed) (simp add: rentVehicle_def)
  next
    case found: (Some r)
    from find_SomeD [OF found] holds_atD [of s _ r]
    obtain vehicle where v: "r \<in> set (getVehicles s (b_location booking))" "store s r = Some vehicle"
      "plate_number vehicle = b_plate_number booking" "vehicleisavailable vehicle"
      by blast
    show ?thesis
    proof (cases "status booking = ''BOOKED''")
      case True
      with Some found v show ?thesis
        by (intro rented [of booking r vehicle]) (simp_all add: rentVehicle_def)
    next
      case False
      with Some show ?thesis by (intro failed) (simp add: rentVehicle_def)
    qed
  qed
qed

lemma returnVehicle_cases:
  obtains (failed) "returnVehicle s bid = (False, s)"
  | (returned) booking :: Booking and r and vehicle :: Vehicle where
      "booking_records s bid = Some booking" "status booking = ''RENTED''"
      "r \<in> set (getVehicles s (b_location booking))" "store s r = Some vehicle"
      "plate_number vehicle = b_plate_number booking"
      "returnVehicle s bid =
        (True,
         s\<lparr>store := (store s)(r \<mapsto> vehicle\<lparr>vehicleisavailable := True\<rparr>),
           booking_records := (booking_records s)(bid \<mapsto> booking\<lparr>status := ''COMPLETED''\<rparr>)\<rparr>)"
proof (cases "booking_records s bid")
  case None
  then show ?thesis by (intro failed) (simp add: returnVehicle_def)
next
  case (Some booking)
  show ?thesis
  proof (cases "find (holds_at s (\<lambda>vehicle. plate_number vehicle = b_plate_number booking))
                    (getVehicles s (b_location booking))")
    case None
    with Some show ?thesis by (intro failed) (simp add: returnVehicle_def)
  next
    case found: (Some r)
    from find_SomeD [OF found] holds_atD [of s _ r]
    obtain vehicle where v: "r \<in> set (getVehicles s (b_location booking))" "store s r = Some vehicle"
      "plate_number vehicle = b_plate_number booking"
      by blast
    show ?thesis
    proof (cases "status booking = ''RENTED''")
      case True
      with Some found v show ?thesis
        by (intro returned [of booking r vehicle]) (simp_all add: returnVehicle_def)
    next
      case False
      with Some show ?thesis by (intro failed) (simp add: returnVehicle_def)
    qed
  qed
qed

lemma createBooking_succeeds:
  assumes "r \<in> set (getVehicles s loc)" "store s r = Some vehicle"
    "vehicle_name vehicle = vname" "vehicleisavailable vehicle"
  shows "fst (createBooking s usr vname loc) \<noteq> None"
proof -
  let ?P = "holds_at s (\<lambda>vehicle. vehicle_name vehicle = vname \<and> vehicleisavailable vehicle)"
  from assms have "?P r" by (intro holds_atI) auto
  from find_not_None [of r _ ?P, OF assms(1) this]
  obtain r' where f: "find ?P (getVehicles s loc) = Some r'"
    by blast
  from find_SomeD [OF f] holds_atD [of s _ r'] obtain v' where "store s r' = Some v'" by blast
  with f show ?thesis by (simp add: createBooking_def Booking_init_def)
qed

lemma rentVehicle_succeeds:
  assumes "booking_records s bid = Some booking" "status booking = ''BOOKED''"
    "r \<in> set (getVehicles s (b_location booking))" "store s r = Some vehicle"
    "plate_number vehicle = b_plate_number booking" "vehicleisavailable vehicle"
  shows "fst (rentVehicle s bid)"
proof -
  let ?P = "holds_at s (\<lambda>vehicle. plate_number vehicle = b_plate_number booking
                                       \<and> vehicleisavailable vehicle)"
  from assms have "?P r" by (intro holds_atI) auto
  from find_not_None [of r _ ?P, OF assms(3) this] obtain r' where
    f: "find ?P (getVehicles s (b_location booking)) = Some r'"
    by blast
  from find_SomeD [OF f] holds_atD [of s _ r'] obtain v' where "store s r' = Some v'" by blast
  with f assms(1,2) show ?thesis by (simp add: rentVehicle_def)
qed

lemma returnVehicle_succeeds:
  assumes "booking_records s bid = Some booking" "status booking = ''RENTED''"
    "r \<in> set (getVehicles s (b_location booking))" "store s r = Some vehicle"
    "plate_number vehicle = b_plate_number booking"
  shows "fst (returnVehicle s bid)"
proof -
  let ?P = "holds_at s (\<lambda>vehicle. plate_number vehicle = b_plate_number booking)"
  from assms have "?P r" by (intro holds_atI) auto
  from find_not_None [of r _ ?P, OF assms(3) this] obtain r' where
    f: "find ?P (getVehicles s (b_location booking)) = Some r'"
    by blast
  from find_SomeD [OF f] holds_atD [of s _ r'] obtain v' where "store s r' = Some v'" by blast
  with f assms(1,2) show ?thesis by (simp add: returnVehicle_def)
qed

subsection \<open>Evaluating the concrete systems\<close>

lemmas eval_defs = run_def new_Vehicle_def addvehicle_def getVehicles_def Vehicle_init_def
  VehicleSystem_init_def createBooking_def rentVehicle_def returnVehicle_def Booking_init_def holds_at_def
  demo_user_def

lemma run_single_car_calls: "run single_car_calls = single_car_state"
  by (simp add: single_car_calls_def single_car_state_def car_KA01_def eval_defs)

lemma run_rented_state: "run (single_car_calls @
    [Call_createBooking demo_user ''Car'' ''Bangalore'', Call_rentVehicle 1]) = rented_state"
  by (simp add: single_car_calls_def rented_state_def booked_state_def single_car_state_def
      booking_1_def car_KA01_def eval_defs fun_eq_iff)

lemma run_rented_calls:
  "run rented_calls =
     \<lparr>store = (\<lambda>r. if r = 0 then Some \<lparr>vehicle_name = ''Car'', plate_number = ''KA01'',
                                   vehicle_location = ''Bangalore'', vehicleisavailable = False\<rparr>
                 else if r = 1 then Some \<lparr>vehicle_name = ''Bike'', plate_number = ''KA02'',
                                   vehicle_location = ''Bangalore'', vehicleisavailable = True\<rparr>
                 else None),
      next_ref = 2,
      vehicle_loc_hashmap = (\<lambda>l. if l = ''Bangalore'' then Some [0, 1] else None),
      booking_records = (\<lambda>b. if b = 1 then Some \<lparr>booking_id = 1, b_username = ''prateek'',
          b_vehicle_name = ''Car'', b_plate_number = ''KA01'', b_location = ''Bangalore'',
          status = ''RENTED''\<rparr> else None),
      booking_counter = 2\<rparr>"
  by (simp add: rented_calls_def eval_defs fun_eq_iff)

lemma run_twin_plate_calls:
  "run twin_plate_calls =
     \<lparr>store = (\<lambda>r. if r = 0 then Some \<lparr>vehicle_name = ''Car'', plate_number = ''KA01'',
                                   vehicle_location = ''Bangalore'', vehicleisavailable = False\<rparr>
                 else if r = 1 then Some \<lparr>vehicle_name = ''Car'', plate_number = ''KA01'',
                                   vehicle_location = ''Bangalore'', vehicleisavailable = True\<rparr>
                 else None),
      next_ref = 2,
      vehicle_loc_hashmap = (\<lambda>l. if l = ''Bangalore'' then Some [0, 1] else None),
      booking_records = (\<lambda>b. if b = 1 then Some \<lparr>booking_id = 1, b_username = ''prateek'',
          b_vehicle_name = ''Car'', b_plate_number = ''KA01'', b_location = ''Bangalore'',
          status = ''RENTED''\<rparr> else None),
      booking_counter = 2\<rparr>"
  by (simp add: twin_plate_calls_def eval_defs fun_eq_iff)

lemma rented_calls_facts:
  "0 \<in> set (getVehicles (run rented_calls) ''Bangalore'')"
  "1 \<in> set (getVehicles (run rented_calls) ''Bangalore'')"
  "store (run rented_calls) 0 = Some (car_KA01\<lparr>vehicleisavailable := False\<rparr>)"
  "store (run rented_calls) 1 = Some bike_KA02"
  by (simp_all add: run_rented_calls getVehicles_def car_KA01_def bike_KA02_def)

lemma rented_calls_return:
  "store (step (run rented_calls) (Call_returnVehicle 1)) 0 = Some car_KA01"
  by (simp add: run_rented_calls returnVehicle_def getVehicles_def holds_at_def car_KA01_def)

lemma shared_plate_eval:
  "1 \<in> set (getVehicles (run shared_plate_calls) ''Bangalore'')"
  "store (run shared_plate_calls) 1 =
     Some \<lparr>vehicle_name = ''Car'', plate_number = ''KA01'',
           vehicle_location = ''Bangalore'', vehicleisavailable = True\<rparr>"
  "fst (createBooking (run shared_plate_calls) demo_user ''Car'' ''Bangalore'') = Some 2"
  "fst (rentVehicle (snd (createBooking (run shared_plate_calls) demo_user ''Car'' ''Bangalore'')) 2)"
  "fst (returnVehicle (snd (rentVehicle (snd (createBooking (run shared_plate_calls) demo_user
      ''Car'' ''Bangalore'')) 2)) 2)"
  "store (snd (returnVehicle (snd (rentVehicle (snd (createBooking (run shared_plate_calls) demo_user
      ''Car'' ''Bangalore'')) 2)) 2)) 1 =
     Some \<lparr>vehicle_name = ''Car'', plate_number = ''KA01'',
           vehicle_location = ''Bangalore'', vehicleisavailable = False\<rparr>"
  by (simp_all add: shared_plate_calls_def eval_defs)

subsection \<open>createBooking\<close>

text \<open>
  Claim C2. \<^verbatim>\<open>createBooking\<close> scans the location's list in order. When the vehicle at
  index \<open>i\<close> has the requested name and is available and no vehicle before it has, the
  call stores a booking with status \<^verbatim>\<open>"BOOKED"\<close>, made from that vehicle, under the
  counter's value and returns that id. When no listed vehicle has the name and is
  available, it returns \<^verbatim>\<open>None\<close> and the state is unchanged. In every case the
  vehicle objects and the lists of vehicles are as before, so no availability flag
  changes.
\<close>

theorem createBooking_first_match:
  "(\<forall>i (vehicle :: Vehicle).
      i < length (getVehicles s loc) \<and> store s (getVehicles s loc ! i) = Some vehicle \<and>
      vehicle_name vehicle = vname \<and> vehicleisavailable vehicle \<and>
      (\<forall>j<i. \<forall>w. store s (getVehicles s loc ! j) = Some w \<longrightarrow>
                 \<not> (vehicle_name w = vname \<and> vehicleisavailable w)) \<longrightarrow>
      createBooking s usr vname loc =
        (Some (booking_counter s),
         s\<lparr>booking_records := (booking_records s)(booking_counter s \<mapsto>
              \<lparr>booking_id = booking_counter s, b_username = username usr,
               b_vehicle_name = vehicle_name vehicle, b_plate_number = plate_number vehicle,
               b_location = vehicle_location vehicle, status = ''BOOKED''\<rparr>),
           booking_counter := booking_counter s + 1\<rparr>)) \<and>
   ((\<forall>r\<in>set (getVehicles s loc). \<forall>w. store s r = Some w \<longrightarrow>
        \<not> (vehicle_name w = vname \<and> vehicleisavailable w)) \<longrightarrow>
      createBooking s usr vname loc = (None, s)) \<and>
   store (snd (createBooking s usr vname loc)) = store s \<and>
   vehicle_loc_hashmap (snd (createBooking s usr vname loc)) = vehicle_loc_hashmap s"
proof (intro conjI allI impI)
  fix i and vehicle :: Vehicle
  let ?P = "holds_at s (\<lambda>vehicle. vehicle_name vehicle = vname \<and> vehicleisavailable vehicle)"
  let ?vs = "getVehicles s loc"
  assume a: "i < length ?vs \<and> store s (?vs ! i) = Some vehicle \<and>
      vehicle_name vehicle = vname \<and> vehicleisavailable vehicle \<and>
      (\<forall>j<i. \<forall>w. store s (?vs ! j) = Some w \<longrightarrow>
                 \<not> (vehicle_name w = vname \<and> vehicleisavailable w))"
  then have "?P (?vs ! i)" and "\<forall>j<i. \<not> ?P (?vs ! j)"
    by (auto simp: holds_at_def split: option.splits)
  with a have "find ?P ?vs = Some (?vs ! i)"
    by (intro find_first) auto
  with a show "createBooking s usr vname loc =
        (Some (booking_counter s),
         s\<lparr>booking_records := (booking_records s)(booking_counter s \<mapsto>
              \<lparr>booking_id = booking_counter s, b_username = username usr,
               b_vehicle_name = vehicle_name vehicle, b_plate_number = plate_number vehicle,
               b_location = vehicle_location vehicle, status = ''BOOKED''\<rparr>),
           booking_counter := booking_counter s + 1\<rparr>)"
    by (simp add: createBooking_def Booking_init_def)
next
  assume "\<forall>r\<in>set (getVehicles s loc). \<forall>w. store s r = Some w \<longrightarrow>
        \<not> (vehicle_name w = vname \<and> vehicleisavailable w)"
  then have "find (holds_at s (\<lambda>vehicle. vehicle_name vehicle = vname \<and> vehicleisavailable vehicle))
      (getVehicles s loc) = None"
    by (auto simp: find_None_iff holds_at_def split: option.splits)
  then show "createBooking s usr vname loc = (None, s)"
    by (simp add: createBooking_def)
next
  show "store (snd (createBooking s usr vname loc)) = store s"
    by (simp add: createBooking_def Booking_init_def split: option.splits)
next
  show "vehicle_loc_hashmap (snd (createBooking s usr vname loc)) = vehicle_loc_hashmap s"
    by (simp add: createBooking_def Booking_init_def split: option.splits)
qed

text \<open>
  On the single car: booking the car returns id 1 and gives the booked state, booking a
  bike returns \<^verbatim>\<open>None\<close> and changes nothing, and the vehicles are the same.
\<close>

theorem createBooking_first_match_witness:
  "createBooking single_car_state demo_user ''Car'' ''Bangalore'' = (Some 1, booked_state) \<and>
   createBooking single_car_state demo_user ''Bike'' ''Bangalore'' = (None, single_car_state) \<and>
   store booked_state = store single_car_state"
proof -
  have "createBooking single_car_state demo_user ''Car'' ''Bangalore'' =
      (Some (booking_counter single_car_state),
         single_car_state\<lparr>booking_records := (booking_records single_car_state)
            (booking_counter single_car_state \<mapsto>
              \<lparr>booking_id = booking_counter single_car_state, b_username = username demo_user,
               b_vehicle_name = vehicle_name car_KA01, b_plate_number = plate_number car_KA01,
               b_location = vehicle_location car_KA01, status = ''BOOKED''\<rparr>),
           booking_counter := booking_counter single_car_state + 1\<rparr>)"
    by (rule createBooking_first_match [THEN conjunct1, rule_format, of 0])
       (simp add: single_car_state_def car_KA01_def getVehicles_def)
  then have 1: "createBooking single_car_state demo_user ''Car'' ''Bangalore'' = (Some 1, booked_state)"
    by (simp add: single_car_state_def booked_state_def booking_1_def car_KA01_def demo_user_def)
  have 2: "createBooking single_car_state demo_user ''Bike'' ''Bangalore'' = (None, single_car_state)"
    by (rule createBooking_first_match [THEN conjunct2, THEN conjunct1, rule_format])
       (auto simp: single_car_state_def car_KA01_def getVehicles_def)
  from createBooking_first_match [THEN conjunct2, THEN conjunct2, THEN conjunct1,
      of single_car_state demo_user "''Car''" "''Bangalore''"] 1
  have 3: "store booked_state = store single_car_state" by simp
  from 1 2 3 show ?thesis by blast
qed

subsection \<open>rentVehicle\<close>

text \<open>
  Claim C3. \<^verbatim>\<open>rentVehicle\<close> fails, leaving the state as it is, when the booking is
  missing or its status is not \<^verbatim>\<open>"BOOKED"\<close>. Otherwise, when the vehicle at index \<open>i\<close>
  of the booking's location has the booking's plate number and is available and no
  vehicle before it has both, that vehicle becomes unavailable, the booking becomes
  \<^verbatim>\<open>"RENTED"\<close> and the call succeeds; when no listed vehicle has the plate number and
  is available, the call fails and the state is unchanged. A second call on the same
  booking id, right after a first one, fails and changes nothing.
\<close>

theorem rentVehicle_spec:
  "(booking_records s bid = None \<longrightarrow> rentVehicle s bid = (False, s)) \<and>
   (\<forall>booking. booking_records s bid = Some booking \<and> status booking \<noteq> ''BOOKED'' \<longrightarrow>
      rentVehicle s bid = (False, s)) \<and>
   (\<forall>booking i vehicle.
      booking_records s bid = Some booking \<and> status booking = ''BOOKED'' \<and>
      i < length (getVehicles s (b_location booking)) \<and>
      store s (getVehicles s (b_location booking) ! i) = Some vehicle \<and>
      plate_number vehicle = b_plate_number booking \<and> vehicleisavailable vehicle \<and>
      (\<forall>j<i. \<forall>w. store s (getVehicles s (b_location booking) ! j) = Some w \<longrightarrow>
                 \<not> (plate_number w = b_plate_number booking \<and> vehicleisavailable w)) \<longrightarrow>
      rentVehicle s bid =
        (True,
         s\<lparr>store := (store s)(getVehicles s (b_location booking) ! i \<mapsto>
                       vehicle\<lparr>vehicleisavailable := False\<rparr>),
           booking_records := (booking_records s)(bid \<mapsto> booking\<lparr>status := ''RENTED''\<rparr>)\<rparr>)) \<and>
   (\<forall>booking.
      booking_records s bid = Some booking \<and> status booking = ''BOOKED'' \<and>
      (\<forall>r\<in>set (getVehicles s (b_location booking)). \<forall>w. store s r = Some w \<longrightarrow>
         \<not> (plate_number w = b_plate_number booking \<and> vehicleisavailable w)) \<longrightarrow>
      rentVehicle s bid = (False, s)) \<and>
   rentVehicle (snd (rentVehicle s bid)) bid = (False, snd (rentVehicle s bid))"
proof (intro conjI allI impI)
  assume "booking_records s bid = None"
  then show "rentVehicle s bid = (False, s)" by (simp add: rentVehicle_def)
next
  fix booking :: Booking
  assume "booking_records s bid = Some booking \<and> status booking \<noteq> ''BOOKED''"
  then show "rentVehicle s bid = (False, s)" by (simp add: rentVehicle_def)
next
  fix booking :: Booking and i and vehicle :: Vehicle
  let ?vs = "getVehicles s (b_location booking)"
  let ?P = "holds_at s (\<lambda>vehicle. plate_number vehicle = b_plate_number booking
                                       \<and> vehicleisavailable vehicle)"
  assume a: "booking_records s bid = Some booking \<and> status booking = ''BOOKED'' \<and>
      i < length ?vs \<and> store s (?vs ! i) = Some vehicle \<and>
      plate_number vehicle = b_plate_number booking \<and> vehicleisavailable vehicle \<and>
      (\<forall>j<i. \<forall>w. store s (?vs ! j) = Some w \<longrightarrow>
                 \<not> (plate_number w = b_plate_number booking \<and> vehicleisavailable w))"
  then have "?P (?vs ! i)" and "\<forall>j<i. \<not> ?P (?vs ! j)"
    by (auto simp: holds_at_def split: option.splits)
  with a have "find ?P ?vs = Some (?vs ! i)"
    by (intro find_first) auto
  with a show "rentVehicle s bid =
        (True,
         s\<lparr>store := (store s)(?vs ! i \<mapsto> vehicle\<lparr>vehicleisavailable := False\<rparr>),
           booking_records := (booking_records s)(bid \<mapsto> booking\<lparr>status := ''RENTED''\<rparr>)\<rparr>)"
    by (simp add: rentVehicle_def)
next
  fix booking :: Booking
  assume a: "booking_records s bid = Some booking \<and> status booking = ''BOOKED'' \<and>
      (\<forall>r\<in>set (getVehicles s (b_location booking)). \<forall>w. store s r = Some w \<longrightarrow>
         \<not> (plate_number w = b_plate_number booking \<and> vehicleisavailable w))"
  then have "find (holds_at s (\<lambda>vehicle. plate_number vehicle = b_plate_number booking
                                       \<and> vehicleisavailable vehicle))
                    (getVehicles s (b_location booking)) = None"
    by (auto simp: find_None_iff holds_at_def split: option.splits)
  with a show "rentVehicle s bid = (False, s)" by (simp add: rentVehicle_def)
next
  show "rentVehicle (snd (rentVehicle s bid)) bid = (False, snd (rentVehicle s bid))"
  proof (cases rule: rentVehicle_cases [of s bid])
    case failed
    then show ?thesis by simp
  next
    case (rented booking r vehicle)
    then show ?thesis by (simp add: rentVehicle_def)
  qed
qed

text \<open>
  On the booked single car: renting booking 1 succeeds and gives the rented state,
  renting it again fails there, and renting an unknown booking fails.
\<close>

theorem rentVehicle_spec_witness:
  "rentVehicle booked_state 1 = (True, rented_state) \<and>
   rentVehicle rented_state 1 = (False, rented_state) \<and>
   rentVehicle booked_state 7 = (False, booked_state)"
proof -
  have "rentVehicle booked_state 1 =
        (True,
         booked_state\<lparr>store := (store booked_state)(getVehicles booked_state (b_location booking_1) ! 0 \<mapsto>
                       car_KA01\<lparr>vehicleisavailable := False\<rparr>),
           booking_records := (booking_records booked_state)(1 \<mapsto> booking_1\<lparr>status := ''RENTED''\<rparr>)\<rparr>)"
    by (rule rentVehicle_spec [THEN conjunct2, THEN conjunct2, THEN conjunct1, rule_format, of _ _ _ 0])
       (simp add: booked_state_def single_car_state_def booking_1_def car_KA01_def getVehicles_def)
  then have 1: "rentVehicle booked_state 1 = (True, rented_state)"
    by (simp add: rented_state_def booked_state_def single_car_state_def booking_1_def getVehicles_def)
  from rentVehicle_spec [THEN conjunct2, THEN conjunct2, THEN conjunct2, THEN conjunct2,
      of booked_state 1] 1
  have 2: "rentVehicle rented_state 1 = (False, rented_state)" by simp
  have 3: "rentVehicle booked_state 7 = (False, booked_state)"
    by (rule rentVehicle_spec [THEN conjunct1, rule_format])
       (simp add: booked_state_def)
  from 1 2 3 show ?thesis by blast
qed

section \<open>Vehicle rental: reachable states\<close>

subsection \<open>Every reachable state is well formed\<close>

lemma well_formedI:
  assumes "\<And>r vehicle. store s r = Some vehicle \<Longrightarrow> r < next_ref s"
    and "\<And>loc r. r \<in> set (getVehicles s loc) \<Longrightarrow>
           \<exists>vehicle. store s r = Some vehicle \<and> vehicle_location vehicle = loc"
    and "\<And>bid booking. booking_records s bid = Some booking \<Longrightarrow> bid < booking_counter s"
    and "\<And>bid booking. booking_records s bid = Some booking \<Longrightarrow>
           \<exists>r\<in>set (getVehicles s (b_location booking)). \<exists>vehicle.
             store s r = Some vehicle \<and> plate_number vehicle = b_plate_number booking"
    and "\<And>r vehicle. store s r = Some vehicle \<Longrightarrow> \<not> in_system s r \<Longrightarrow> vehicleisavailable vehicle"
  shows "well_formed s"
  unfolding well_formed_def using assms by blast

lemma well_formed_store_bound: "well_formed s \<Longrightarrow> store s r = Some vehicle \<Longrightarrow> r < next_ref s"
  unfolding well_formed_def by blast

lemma well_formed_listed:
  "well_formed s \<Longrightarrow> r \<in> set (getVehicles s loc) \<Longrightarrow>
     \<exists>vehicle. store s r = Some vehicle \<and> vehicle_location vehicle = loc"
  unfolding well_formed_def by blast

lemma well_formed_booking_id: "well_formed s \<Longrightarrow> booking_records s bid = Some booking \<Longrightarrow> bid < booking_counter s"
  unfolding well_formed_def by blast

lemma well_formed_booking_vehicle:
  "well_formed s \<Longrightarrow> booking_records s bid = Some booking \<Longrightarrow>
     \<exists>r\<in>set (getVehicles s (b_location booking)). \<exists>vehicle.
        store s r = Some vehicle \<and> plate_number vehicle = b_plate_number booking"
  unfolding well_formed_def by blast

lemma well_formed_unlisted:
  "well_formed s \<Longrightarrow> store s r = Some vehicle \<Longrightarrow> \<not> in_system s r \<Longrightarrow> vehicleisavailable vehicle"
  unfolding well_formed_def by blast

lemma getVehicles_upd [simp]:
  "getVehicles (s\<lparr>booking_records := m\<rparr>) l = getVehicles s l"
  "getVehicles (s\<lparr>booking_counter := c\<rparr>) l = getVehicles s l"
  "getVehicles (s\<lparr>store := h\<rparr>) l = getVehicles s l"
  "getVehicles (s\<lparr>next_ref := n\<rparr>) l = getVehicles s l"
  by (simp_all add: getVehicles_def)

lemma in_system_upd [simp]:
  "in_system (s\<lparr>booking_records := m\<rparr>) r = in_system s r"
  "in_system (s\<lparr>booking_counter := c\<rparr>) r = in_system s r"
  "in_system (s\<lparr>store := h\<rparr>) r = in_system s r"
  "in_system (s\<lparr>next_ref := n\<rparr>) r = in_system s r"
  by (simp_all add: in_system_def)

lemma getVehicles_append:
  "getVehicles (s\<lparr>vehicle_loc_hashmap := (vehicle_loc_hashmap s)(l \<mapsto> getVehicles s l @ [r])\<rparr>) l' =
     (if l' = l then getVehicles s l @ [r] else getVehicles s l')"
  by (simp add: getVehicles_def)

lemma in_system_append:
  "in_system (s\<lparr>vehicle_loc_hashmap := (vehicle_loc_hashmap s)(l \<mapsto> getVehicles s l @ [r])\<rparr>) r' \<longleftrightarrow>
     r' = r \<or> in_system s r'"
  unfolding in_system_def getVehicles_append by auto

lemma well_formed_init: "well_formed VehicleSystem_init"
  by (simp add: well_formed_def VehicleSystem_init_def getVehicles_def)

lemma well_formed_fresh: "well_formed s \<Longrightarrow> store s (next_ref s) = None"
  by (cases "store s (next_ref s)") (auto dest: well_formed_store_bound)

lemma well_formed_in_system_stored: "well_formed s \<Longrightarrow> in_system s r \<Longrightarrow> \<exists>vehicle. store s r = Some vehicle"
  unfolding in_system_def by (blast dest: well_formed_listed)

lemma well_formed_new_Vehicle:
  assumes "well_formed s" shows "well_formed (snd (new_Vehicle s vname plate loc))"
proof -
  let ?s' = "s\<lparr>store := (store s)(next_ref s \<mapsto> Vehicle_init vname plate loc),
                next_ref := Suc (next_ref s)\<rparr>"
  have fresh: "store s (next_ref s) = None" using assms by (rule well_formed_fresh)
  have listed_ne: "r \<noteq> next_ref s" if "r \<in> set (getVehicles s l)" for r l
    using well_formed_listed [OF assms that] fresh by auto
  have "well_formed ?s'"
  proof (rule well_formedI)
    fix r vehicle assume "store ?s' r = Some vehicle"
    then show "r < next_ref ?s'"
      using assms by (auto simp: less_Suc_eq dest: well_formed_store_bound split: if_splits)
  next
    fix l r assume "r \<in> set (getVehicles ?s' l)"
    then have r: "r \<in> set (getVehicles s l)" by simp
    from well_formed_listed [OF assms r] listed_ne [OF r]
    show "\<exists>vehicle. store ?s' r = Some vehicle \<and> vehicle_location vehicle = l"
      by simp
  next
    fix bid booking
    assume b: "booking_records ?s' bid = Some booking"
    then show "bid < booking_counter ?s'"
      using assms by (auto dest: well_formed_booking_id)
  next
    fix bid booking
    assume "booking_records ?s' bid = Some booking"
    then have "booking_records s bid = Some booking" by simp
    from well_formed_booking_vehicle [OF assms this] obtain r vehicle where
      r: "r \<in> set (getVehicles s (b_location booking))" "store s r = Some vehicle"
         "plate_number vehicle = b_plate_number booking"
      by blast
    from r listed_ne [OF r(1)]
    have "r \<in> set (getVehicles ?s' (b_location booking)) \<and> store ?s' r = Some vehicle \<and>
           plate_number vehicle = b_plate_number booking"
      by simp
    then show "\<exists>r\<in>set (getVehicles ?s' (b_location booking)).
        \<exists>vehicle. store ?s' r = Some vehicle \<and> plate_number vehicle = b_plate_number booking"
      by blast
  next
    fix r vehicle
    assume "store ?s' r = Some vehicle" "\<not> in_system ?s' r"
    then show "vehicleisavailable vehicle"
      using assms
      by (auto simp: Vehicle_init_def dest: well_formed_unlisted split: if_splits)
  qed
  then show ?thesis by (simp add: new_Vehicle_def)
qed

lemma well_formed_addvehicle:
  assumes "well_formed s" shows "well_formed (snd (addvehicle s r))"
proof (cases rule: addvehicle_cases [of s r])
  case dangling
  with assms show ?thesis by simp
next
  case (added v)
  let ?l = "vehicle_location v"
  let ?s' = "s\<lparr>vehicle_loc_hashmap :=
               (vehicle_loc_hashmap s)(?l \<mapsto> getVehicles s ?l @ [r])\<rparr>"
  have "well_formed ?s'"
  proof (rule well_formedI)
    fix r' vehicle assume "store ?s' r' = Some vehicle"
    then show "r' < next_ref ?s'"
      using assms by (auto dest: well_formed_store_bound)
  next
    fix l r' assume "r' \<in> set (getVehicles ?s' l)"
    then have "r' \<in> set (getVehicles s l) \<or> (r' = r \<and> l = ?l)"
      unfolding getVehicles_append by (auto split: if_splits)
    then show "\<exists>vehicle. store ?s' r' = Some vehicle \<and> vehicle_location vehicle = l"
      using added(1) well_formed_listed [OF assms] by auto
  next
    fix bid booking
    assume b: "booking_records ?s' bid = Some booking"
    then show "bid < booking_counter ?s'"
      using assms by (auto dest: well_formed_booking_id)
  next
    fix bid booking
    assume "booking_records ?s' bid = Some booking"
    then have "booking_records s bid = Some booking" by simp
    from well_formed_booking_vehicle [OF assms this] obtain r' vehicle where
      r: "r' \<in> set (getVehicles s (b_location booking))" "store s r' = Some vehicle"
         "plate_number vehicle = b_plate_number booking"
      by blast
    then have "r' \<in> set (getVehicles ?s' (b_location booking)) \<and> store ?s' r' = Some vehicle \<and>
           plate_number vehicle = b_plate_number booking"
      unfolding getVehicles_append by auto
    then show "\<exists>r\<in>set (getVehicles ?s' (b_location booking)).
        \<exists>vehicle. store ?s' r = Some vehicle \<and> plate_number vehicle = b_plate_number booking"
      by blast
  next
    fix r' vehicle
    assume "store ?s' r' = Some vehicle" "\<not> in_system ?s' r'"
    then have "store s r' = Some vehicle" "\<not> in_system s r'"
      unfolding in_system_append by simp_all
    then show "vehicleisavailable vehicle"
      using assms by (rule well_formed_unlisted [rotated])
  qed
  with added show ?thesis by simp
qed

lemma well_formed_createBooking:
  assumes "well_formed s" shows "well_formed (snd (createBooking s usr vname loc))"
proof (cases rule: createBooking_cases [of s usr vname loc])
  case not_found
  with assms show ?thesis by simp
next
  case (booked r v)
  let ?b = "\<lparr>booking_id = booking_counter s, b_username = username usr,
               b_vehicle_name = vehicle_name v, b_plate_number = plate_number v,
               b_location = vehicle_location v, status = ''BOOKED''\<rparr>"
  let ?s' = "s\<lparr>booking_records := (booking_records s)(booking_counter s \<mapsto> ?b),
           booking_counter := booking_counter s + 1\<rparr>"
  from well_formed_listed [OF assms booked(1)] booked(2) have loc: "vehicle_location v = loc" by simp
  have "well_formed ?s'"
  proof (rule well_formedI)
    fix r' vehicle assume "store ?s' r' = Some vehicle"
    then show "r' < next_ref ?s'"
      using assms by (auto dest: well_formed_store_bound)
  next
    fix l r' assume "r' \<in> set (getVehicles ?s' l)"
    then show "\<exists>vehicle. store ?s' r' = Some vehicle \<and> vehicle_location vehicle = l"
      using well_formed_listed [OF assms] by simp
  next
    fix bid booking
    assume b: "booking_records ?s' bid = Some booking"
    then show "bid < booking_counter ?s'"
      using well_formed_booking_id [OF assms, of bid booking] by (auto split: if_splits)
  next
    fix bid booking
    assume b: "booking_records ?s' bid = Some booking"
    show "\<exists>r\<in>set (getVehicles ?s' (b_location booking)).
        \<exists>vehicle. store ?s' r = Some vehicle \<and> plate_number vehicle = b_plate_number booking"
    proof (cases "bid = booking_counter s")
      case True
      with b have "booking = ?b" by simp
      with booked loc show ?thesis by auto
    next
      case False
      with b have "booking_records s bid = Some booking" by simp
      from well_formed_booking_vehicle [OF assms this] show ?thesis by simp
    qed
  next
    fix r' vehicle
    assume "store ?s' r' = Some vehicle" "\<not> in_system ?s' r'"
    then show "vehicleisavailable vehicle"
      using assms by (auto dest: well_formed_unlisted)
  qed
  with booked show ?thesis by simp
qed

lemma well_formed_store_avail_upd:
  assumes "well_formed s" and r: "r \<in> set (getVehicles s loc)" "store s r = Some v"
    and bk: "booking_records s bid = Some b"
  shows "well_formed (s\<lparr>store := (store s)(r \<mapsto> v\<lparr>vehicleisavailable := a\<rparr>),
              booking_records := (booking_records s)(bid \<mapsto> b\<lparr>status := st\<rparr>)\<rparr>)"
    (is "well_formed ?s'")
proof (rule well_formedI)
  fix r' vehicle assume "store ?s' r' = Some vehicle"
  then show "r' < next_ref ?s'"
    using assms by (auto dest: well_formed_store_bound split: if_splits)
next
  fix l r' assume "r' \<in> set (getVehicles ?s' l)"
  then have "r' \<in> set (getVehicles s l)" by simp
  from well_formed_listed [OF assms(1) this] r(2)
  show "\<exists>vehicle. store ?s' r' = Some vehicle \<and> vehicle_location vehicle = l"
    by auto
next
  fix bid' booking
  assume "booking_records ?s' bid' = Some booking"
  then show "bid' < booking_counter ?s'"
    using well_formed_booking_id [OF assms(1)] bk by (auto split: if_splits)
next
  fix bid' booking
  assume b': "booking_records ?s' bid' = Some booking"
  then obtain b0 where b0: "booking_records s bid' = Some b0"
    "b_location b0 = b_location booking" "b_plate_number b0 = b_plate_number booking"
    using bk by (cases "bid' = bid") auto
  from well_formed_booking_vehicle [OF assms(1) b0(1)] obtain r' vehicle where
    r': "r' \<in> set (getVehicles s (b_location b0))" "store s r' = Some vehicle"
        "plate_number vehicle = b_plate_number b0"
    by blast
  show "\<exists>r\<in>set (getVehicles ?s' (b_location booking)).
        \<exists>vehicle. store ?s' r = Some vehicle \<and> plate_number vehicle = b_plate_number booking"
  proof (cases "r' = r")
    case True
    with r' r b0 have "r \<in> set (getVehicles ?s' (b_location booking)) \<and>
      store ?s' r = Some (v\<lparr>vehicleisavailable := a\<rparr>) \<and>
      plate_number (v\<lparr>vehicleisavailable := a\<rparr>) = b_plate_number booking"
      by simp
    then show ?thesis by blast
  next
    case False
    with r' b0 have "r' \<in> set (getVehicles ?s' (b_location booking)) \<and>
      store ?s' r' = Some vehicle \<and> plate_number vehicle = b_plate_number booking"
      by simp
    then show ?thesis by blast
  qed
next
  fix r' vehicle
  assume a: "store ?s' r' = Some vehicle" "\<not> in_system ?s' r'"
  with r(1) have "r' \<noteq> r" by (auto simp: in_system_def)
  with a have "store s r' = Some vehicle" "\<not> in_system s r'" by simp_all
  then show "vehicleisavailable vehicle"
    using assms(1) by (rule well_formed_unlisted [rotated])
qed

lemma well_formed_rentVehicle:
  assumes "well_formed s" shows "well_formed (snd (rentVehicle s bid))"
proof (cases rule: rentVehicle_cases [of s bid])
  case failed
  with assms show ?thesis by simp
next
  case (rented booking r vehicle)
  from well_formed_store_avail_upd [OF assms rented(3,4,1)] rented(7) show ?thesis by simp
qed

lemma well_formed_returnVehicle:
  assumes "well_formed s" shows "well_formed (snd (returnVehicle s bid))"
proof (cases rule: returnVehicle_cases [of s bid])
  case failed
  with assms show ?thesis by simp
next
  case (returned booking r vehicle)
  from well_formed_store_avail_upd [OF assms returned(3,4,1)] returned(6) show ?thesis by simp
qed

lemma well_formed_step: "well_formed s \<Longrightarrow> well_formed (step s c)"
  by (cases c)
     (simp_all add: well_formed_new_Vehicle well_formed_addvehicle well_formed_createBooking well_formed_rentVehicle well_formed_returnVehicle)

lemma run_snoc: "run (calls @ [c]) = step (run calls) c"
  by (simp add: run_def)

lemma well_formed_run: "well_formed (run calls)"
  by (induction calls rule: rev_induct) (simp_all add: run_snoc well_formed_step, simp add: run_def well_formed_init)

subsection \<open>returnVehicle\<close>

text \<open>
  Claim C4. \<^verbatim>\<open>returnVehicle\<close> fails, leaving the state (and so every vehicle's
  availability) as it is, when the booking is missing or its status is not
  \<^verbatim>\<open>"RENTED"\<close>, in particular when it is still \<^verbatim>\<open>"BOOKED"\<close>. Otherwise, when the vehicle
  at index \<open>i\<close> of the booking's location has the booking's plate number and no
  vehicle before it has, that vehicle becomes available, whatever its availability
  was, the booking becomes \<^verbatim>\<open>"COMPLETED"\<close> and the call succeeds. In a reachable state
  such a vehicle exists for every \<^verbatim>\<open>"RENTED"\<close> booking: the call succeeds.
\<close>

theorem returnVehicle_spec:
  "(booking_records s bid = None \<longrightarrow> returnVehicle s bid = (False, s)) \<and>
   (\<forall>booking. booking_records s bid = Some booking \<and> status booking \<noteq> ''RENTED'' \<longrightarrow>
      returnVehicle s bid = (False, s)) \<and>
   (\<forall>booking i vehicle.
      booking_records s bid = Some booking \<and> status booking = ''RENTED'' \<and>
      i < length (getVehicles s (b_location booking)) \<and>
      store s (getVehicles s (b_location booking) ! i) = Some vehicle \<and>
      plate_number vehicle = b_plate_number booking \<and>
      (\<forall>j<i. \<forall>w. store s (getVehicles s (b_location booking) ! j) = Some w \<longrightarrow>
                 plate_number w \<noteq> b_plate_number booking) \<longrightarrow>
      returnVehicle s bid =
        (True,
         s\<lparr>store := (store s)(getVehicles s (b_location booking) ! i \<mapsto>
                       vehicle\<lparr>vehicleisavailable := True\<rparr>),
           booking_records := (booking_records s)(bid \<mapsto> booking\<lparr>status := ''COMPLETED''\<rparr>)\<rparr>)) \<and>
   (\<forall>booking. booking_records (run calls) bid = Some booking \<and> status booking = ''RENTED'' \<longrightarrow>
      fst (returnVehicle (run calls) bid))"
proof (intro conjI allI impI)
  assume "booking_records s bid = None"
  then show "returnVehicle s bid = (False, s)" by (simp add: returnVehicle_def)
next
  fix booking :: Booking
  assume "booking_records s bid = Some booking \<and> status booking \<noteq> ''RENTED''"
  then show "returnVehicle s bid = (False, s)" by (simp add: returnVehicle_def)
next
  fix booking :: Booking and i and vehicle :: Vehicle
  let ?vs = "getVehicles s (b_location booking)"
  let ?P = "holds_at s (\<lambda>vehicle. plate_number vehicle = b_plate_number booking)"
  assume a: "booking_records s bid = Some booking \<and> status booking = ''RENTED'' \<and>
      i < length ?vs \<and> store s (?vs ! i) = Some vehicle \<and>
      plate_number vehicle = b_plate_number booking \<and>
      (\<forall>j<i. \<forall>w. store s (?vs ! j) = Some w \<longrightarrow> plate_number w \<noteq> b_plate_number booking)"
  then have "?P (?vs ! i)" and "\<forall>j<i. \<not> ?P (?vs ! j)"
    by (auto simp: holds_at_def split: option.splits)
  with a have "find ?P ?vs = Some (?vs ! i)"
    by (intro find_first) auto
  with a show "returnVehicle s bid =
        (True,
         s\<lparr>store := (store s)(?vs ! i \<mapsto> vehicle\<lparr>vehicleisavailable := True\<rparr>),
           booking_records := (booking_records s)(bid \<mapsto> booking\<lparr>status := ''COMPLETED''\<rparr>)\<rparr>)"
    by (simp add: returnVehicle_def)
next
  fix booking :: Booking
  assume a: "booking_records (run calls) bid = Some booking \<and> status booking = ''RENTED''"
  then have b: "booking_records (run calls) bid = Some booking" by simp
  from well_formed_booking_vehicle [OF well_formed_run b] obtain r vehicle where
    "r \<in> set (getVehicles (run calls) (b_location booking))" "store (run calls) r = Some vehicle"
    "plate_number vehicle = b_plate_number booking"
    by blast
  with a show "fst (returnVehicle (run calls) bid)"
    by (intro returnVehicle_succeeds [of _ _ booking r vehicle]) simp_all
qed

text \<open>
  On the single car: returning the rented booking succeeds and gives the returned
  state; returning the booking while it is \<^verbatim>\<open>"BOOKED"\<close>, or an unknown booking, fails
  and changes nothing; and the call succeeds in the state the calls lead to.
\<close>

theorem returnVehicle_spec_witness:
  "returnVehicle rented_state 1 = (True, returned_state) \<and>
   returnVehicle booked_state 1 = (False, booked_state) \<and>
   returnVehicle booked_state 7 = (False, booked_state) \<and>
   fst (returnVehicle (run (single_car_calls @
     [Call_createBooking demo_user ''Car'' ''Bangalore'', Call_rentVehicle 1])) 1)"
proof -
  have "returnVehicle rented_state 1 =
        (True,
         rented_state\<lparr>store := (store rented_state)
              (getVehicles rented_state (b_location (booking_1\<lparr>status := ''RENTED''\<rparr>)) ! 0 \<mapsto>
                 (car_KA01\<lparr>vehicleisavailable := False\<rparr>)\<lparr>vehicleisavailable := True\<rparr>),
           booking_records := (booking_records rented_state)
              (1 \<mapsto> (booking_1\<lparr>status := ''RENTED''\<rparr>)\<lparr>status := ''COMPLETED''\<rparr>)\<rparr>)"
    by (rule returnVehicle_spec [THEN conjunct2, THEN conjunct2, THEN conjunct1, rule_format, of _ _ _ 0])
       (simp add: rented_state_def booked_state_def single_car_state_def booking_1_def car_KA01_def
          getVehicles_def)
  then have 1: "returnVehicle rented_state 1 = (True, returned_state)"
    by (simp add: returned_state_def rented_state_def booked_state_def single_car_state_def
        booking_1_def car_KA01_def getVehicles_def)
  have 2: "returnVehicle booked_state 1 = (False, booked_state)"
    by (rule returnVehicle_spec [THEN conjunct2, THEN conjunct1, rule_format, of _ _ booking_1])
       (simp add: booked_state_def booking_1_def)
  have 3: "returnVehicle booked_state 7 = (False, booked_state)"
    by (rule returnVehicle_spec [THEN conjunct1, rule_format])
       (simp add: booked_state_def)
  have 4: "fst (returnVehicle (run (single_car_calls @
     [Call_createBooking demo_user ''Car'' ''Bangalore'', Call_rentVehicle 1])) 1)"
    by (rule returnVehicle_spec [THEN conjunct2, THEN conjunct2, THEN conjunct2, rule_format,
          of _ _ "booking_1\<lparr>status := ''RENTED''\<rparr>"])
       (simp add: run_rented_state rented_state_def)
  from 1 2 3 4 show ?thesis by blast
qed

subsection \<open>Plate numbers and rented bookings\<close>

lemma unique_platesD:
  "unique_plates s \<Longrightarrow> in_system s r1 \<Longrightarrow> in_system s r2 \<Longrightarrow> store s r1 = Some v1 \<Longrightarrow>
     store s r2 = Some v2 \<Longrightarrow> plate_number v1 = plate_number v2 \<Longrightarrow> r1 = r2"
  unfolding unique_plates_def by blast

lemma rental_invD:
  "rental_inv s \<Longrightarrow> in_system s r \<Longrightarrow> store s r = Some vehicle \<Longrightarrow>
     (if vehicleisavailable vehicle then rented_bookings (booking_records s) (plate_number vehicle) = {}
      else \<exists>bid. rented_bookings (booking_records s) (plate_number vehicle) = {bid})"
  unfolding rental_inv_def by blast

lemma rental_invI:
  assumes "\<And>r vehicle. in_system s r \<Longrightarrow> store s r = Some vehicle \<Longrightarrow>
     (if vehicleisavailable vehicle then rented_bookings (booking_records s) (plate_number vehicle) = {}
      else \<exists>bid. rented_bookings (booking_records s) (plate_number vehicle) = {bid})"
  shows "rental_inv s"
  unfolding rental_inv_def using assms by blast

lemma rented_bookings_records_upd:
  "rented_bookings (m(k \<mapsto> b)) p =
     (if b_plate_number b = p \<and> status b = ''RENTED'' then insert k (rented_bookings m p)
      else rented_bookings m p - {k})"
  by (auto simp: rented_bookings_def)

lemma rental_inv_init: "rental_inv VehicleSystem_init"
  by (simp add: rental_inv_def in_system_def getVehicles_def VehicleSystem_init_def)

lemma step_in_system_mono: "in_system s r \<Longrightarrow> in_system (step s c) r"
proof (cases c)
  case (Call_Vehicle vname plate loc)
  then show "in_system s r \<Longrightarrow> ?thesis" by (simp add: new_Vehicle_def)
next
  case (Call_addvehicle r')
  then show "in_system s r \<Longrightarrow> ?thesis"
    by (cases rule: addvehicle_cases [of s r']) (simp_all add: in_system_append)
next
  case (Call_createBooking usr vname loc)
  then show "in_system s r \<Longrightarrow> ?thesis"
    by (cases rule: createBooking_cases [of s usr vname loc]) simp_all
next
  case (Call_rentVehicle bid)
  then show "in_system s r \<Longrightarrow> ?thesis"
    by (cases rule: rentVehicle_cases [of s bid]) simp_all
next
  case (Call_returnVehicle bid)
  then show "in_system s r \<Longrightarrow> ?thesis"
    by (cases rule: returnVehicle_cases [of s bid]) simp_all
qed

lemma step_store_plate:
  assumes "well_formed s" "store s r = Some v"
  shows "\<exists>v'. store (step s c) r = Some v' \<and> plate_number v' = plate_number v"
proof (cases c)
  case (Call_Vehicle vname plate loc)
  from well_formed_fresh [OF assms(1)] assms(2) have "r \<noteq> next_ref s" by auto
  with Call_Vehicle assms(2) show ?thesis by (simp add: new_Vehicle_def)
next
  case (Call_addvehicle r')
  with assms(2) show ?thesis
    by (cases rule: addvehicle_cases [of s r']) simp_all
next
  case (Call_createBooking usr vname loc)
  with assms(2) show ?thesis
    by (cases rule: createBooking_cases [of s usr vname loc]) simp_all
next
  case (Call_rentVehicle bid)
  with assms(2) show ?thesis
    by (cases rule: rentVehicle_cases [of s bid]) auto
next
  case (Call_returnVehicle bid)
  with assms(2) show ?thesis
    by (cases rule: returnVehicle_cases [of s bid]) auto
qed

lemma unique_plates_step_back:
  assumes "well_formed s" "unique_plates (step s c)"
  shows "unique_plates s"
  unfolding unique_plates_def
proof (intro allI impI)
  fix r1 r2 v1 v2
  assume a: "in_system s r1 \<and> in_system s r2 \<and> store s r1 = Some v1 \<and> store s r2 = Some v2 \<and>
        plate_number v1 = plate_number v2"
  from a step_store_plate [OF assms(1), of r1 v1 c] step_store_plate [OF assms(1), of r2 v2 c]
  obtain v1' v2' where "store (step s c) r1 = Some v1'" "store (step s c) r2 = Some v2'"
    "plate_number v1' = plate_number v2'"
    by auto
  with a show "r1 = r2"
    using unique_platesD [OF assms(2), of r1 r2 v1' v2'] step_in_system_mono by blast
qed

lemma rental_inv_new_Vehicle:
  assumes "well_formed s" "rental_inv s"
  shows "rental_inv (snd (new_Vehicle s vname plate loc))"
proof -
  let ?s' = "s\<lparr>store := (store s)(next_ref s \<mapsto> Vehicle_init vname plate loc),
                next_ref := Suc (next_ref s)\<rparr>"
  have "rental_inv ?s'"
  proof (rule rental_invI)
    fix r vehicle assume a: "in_system ?s' r" "store ?s' r = Some vehicle"
    then have sys: "in_system s r" by simp
    from well_formed_in_system_stored [OF assms(1) sys] well_formed_fresh [OF assms(1)] have "r \<noteq> next_ref s" by auto
    with a have "store s r = Some vehicle" by simp
    from rental_invD [OF assms(2) sys this]
    show "if vehicleisavailable vehicle then rented_bookings (booking_records ?s') (plate_number vehicle) = {}
      else \<exists>bid. rented_bookings (booking_records ?s') (plate_number vehicle) = {bid}"
      by simp
  qed
  then show ?thesis by (simp add: new_Vehicle_def)
qed

lemma rented_bookings_vehicle:
  assumes "well_formed s" "bid \<in> rented_bookings (booking_records s) p"
  shows "\<exists>r vehicle. in_system s r \<and> store s r = Some vehicle \<and> plate_number vehicle = p"
proof -
  from assms(2) obtain booking where b: "booking_records s bid = Some booking"
    "b_plate_number booking = p"
    by (auto simp: rented_bookings_def)
  from well_formed_booking_vehicle [OF assms(1) b(1)] b(2) show ?thesis
    unfolding in_system_def by blast
qed

lemma rental_inv_addvehicle:
  assumes "well_formed s" "rental_inv s" "unique_plates (snd (addvehicle s r))"
  shows "rental_inv (snd (addvehicle s r))"
proof (cases rule: addvehicle_cases [of s r])
  case dangling
  with assms show ?thesis by simp
next
  case (added v)
  let ?l = "vehicle_location v"
  let ?s' = "s\<lparr>vehicle_loc_hashmap :=
               (vehicle_loc_hashmap s)(?l \<mapsto> getVehicles s ?l @ [r])\<rparr>"
  from assms(3) added have u: "unique_plates ?s'" by simp
  have "rental_inv ?s'"
  proof (rule rental_invI)
    fix r' vehicle assume a: "in_system ?s' r'" "store ?s' r' = Some vehicle"
    then have st: "store s r' = Some vehicle" by simp
    show "if vehicleisavailable vehicle then rented_bookings (booking_records ?s') (plate_number vehicle) = {}
      else \<exists>bid. rented_bookings (booking_records ?s') (plate_number vehicle) = {bid}"
    proof (cases "in_system s r'")
      case True
      from rental_invD [OF assms(2) True st] show ?thesis by simp
    next
      case False
      with a(1) have "r' = r" by (simp add: in_system_append)
      from well_formed_unlisted [OF assms(1) st False] have av: "vehicleisavailable vehicle" .
      have "rented_bookings (booking_records s) (plate_number vehicle) = {}"
      proof (rule ccontr)
        assume "rented_bookings (booking_records s) (plate_number vehicle) \<noteq> {}"
        then obtain bid where "bid \<in> rented_bookings (booking_records s) (plate_number vehicle)" by blast
        from rented_bookings_vehicle [OF assms(1) this] obtain r0 v0 where
          r0: "in_system s r0" "store s r0 = Some v0" "plate_number v0 = plate_number vehicle"
          by blast
        from r0(1) have "in_system ?s' r0" by (simp add: in_system_append)
        from unique_platesD [OF u this a(1), of v0 vehicle] r0 st have "r0 = r'" by simp
        with r0(1) False show False by simp
      qed
      with av show ?thesis by simp
    qed
  qed
  with added show ?thesis by simp
qed

lemma rental_inv_createBooking:
  assumes "well_formed s" "rental_inv s"
  shows "rental_inv (snd (createBooking s usr vname loc))"
proof (cases rule: createBooking_cases [of s usr vname loc])
  case not_found
  with assms show ?thesis by simp
next
  case (booked r v)
  let ?b = "\<lparr>booking_id = booking_counter s, b_username = username usr,
               b_vehicle_name = vehicle_name v, b_plate_number = plate_number v,
               b_location = vehicle_location v, status = ''BOOKED''\<rparr>"
  let ?s' = "s\<lparr>booking_records := (booking_records s)(booking_counter s \<mapsto> ?b),
           booking_counter := booking_counter s + 1\<rparr>"
  have fresh: "booking_counter s \<notin> rented_bookings (booking_records s) p" for p
    using well_formed_booking_id [OF assms(1), of "booking_counter s"] by (auto simp: rented_bookings_def)
  have same: "rented_bookings ((booking_records s)(booking_counter s \<mapsto> ?b)) p =
      rented_bookings (booking_records s) p" for p
    using fresh [of p] by (simp add: rented_bookings_records_upd)
  have "rental_inv ?s'"
  proof (rule rental_invI)
    fix r' vehicle assume a: "in_system ?s' r'" "store ?s' r' = Some vehicle"
    then have "in_system s r'" "store s r' = Some vehicle" by simp_all
    from rental_invD [OF assms(2) this]
    show "if vehicleisavailable vehicle then rented_bookings (booking_records ?s') (plate_number vehicle) = {}
      else \<exists>bid. rented_bookings (booking_records ?s') (plate_number vehicle) = {bid}"
      by (simp add: same)
  qed
  with booked show ?thesis by simp
qed

lemma rental_inv_rentVehicle:
  assumes "well_formed s" "rental_inv s" "unique_plates s"
  shows "rental_inv (snd (rentVehicle s bid))"
proof (cases rule: rentVehicle_cases [of s bid])
  case failed
  with assms show ?thesis by simp
next
  case (rented b r v)
  let ?s' = "s\<lparr>store := (store s)(r \<mapsto> v\<lparr>vehicleisavailable := False\<rparr>),
           booking_records := (booking_records s)(bid \<mapsto> b\<lparr>status := ''RENTED''\<rparr>)\<rparr>"
  from rented(3) have sys: "in_system s r" by (auto simp: in_system_def)
  have nr: "bid \<notin> rented_bookings (booking_records s) p" for p
    using rented(1,2) by (auto simp: rented_bookings_def)
  have R: "rented_bookings ((booking_records s)(bid \<mapsto> b\<lparr>status := ''RENTED''\<rparr>)) p =
      (if p = plate_number v then insert bid (rented_bookings (booking_records s) p) else rented_bookings (booking_records s) p)" for p
    using nr [of p] rented(5) by (auto simp: rented_bookings_records_upd)
  from rental_invD [OF assms(2) sys rented(4)] rented(6)
  have none: "rented_bookings (booking_records s) (plate_number v) = {}" by simp
  have "rental_inv ?s'"
  proof (rule rental_invI)
    fix r' vehicle assume a: "in_system ?s' r'" "store ?s' r' = Some vehicle"
    then have sys': "in_system s r'" by simp
    show "if vehicleisavailable vehicle then rented_bookings (booking_records ?s') (plate_number vehicle) = {}
      else \<exists>bid. rented_bookings (booking_records ?s') (plate_number vehicle) = {bid}"
    proof (cases "r' = r")
      case True
      with a(2) have "vehicle = v\<lparr>vehicleisavailable := False\<rparr>" by simp
      then show ?thesis by (simp add: R none)
    next
      case False
      with a(2) have st: "store s r' = Some vehicle" by simp
      from unique_platesD [OF assms(3) sys' sys st rented(4)] False
      have "plate_number vehicle \<noteq> plate_number v" by blast
      with rental_invD [OF assms(2) sys' st] show ?thesis by (simp add: R)
    qed
  qed
  with rented show ?thesis by simp
qed

lemma rental_inv_returnVehicle:
  assumes "well_formed s" "rental_inv s" "unique_plates s"
  shows "rental_inv (snd (returnVehicle s bid))"
proof (cases rule: returnVehicle_cases [of s bid])
  case failed
  with assms show ?thesis by simp
next
  case (returned b r v)
  let ?s' = "s\<lparr>store := (store s)(r \<mapsto> v\<lparr>vehicleisavailable := True\<rparr>),
           booking_records := (booking_records s)(bid \<mapsto> b\<lparr>status := ''COMPLETED''\<rparr>)\<rparr>"
  from returned(3) have sys: "in_system s r" by (auto simp: in_system_def)
  have R: "rented_bookings ((booking_records s)(bid \<mapsto> b\<lparr>status := ''COMPLETED''\<rparr>)) p =
      rented_bookings (booking_records s) p - {bid}" for p
    by (simp add: rented_bookings_records_upd)
  have mem: "bid \<in> rented_bookings (booking_records s) (plate_number v)"
    using returned(1,2,5) by (simp add: rented_bookings_def)
  with rental_invD [OF assms(2) sys returned(4)]
  have only: "rented_bookings (booking_records s) (plate_number v) = {bid}"
    by (auto split: if_splits)
  have other: "bid \<notin> rented_bookings (booking_records s) p" if "p \<noteq> plate_number v" for p
    using that returned(1,5) by (auto simp: rented_bookings_def)
  have "rental_inv ?s'"
  proof (rule rental_invI)
    fix r' vehicle assume a: "in_system ?s' r'" "store ?s' r' = Some vehicle"
    then have sys': "in_system s r'" by simp
    show "if vehicleisavailable vehicle then rented_bookings (booking_records ?s') (plate_number vehicle) = {}
      else \<exists>bid. rented_bookings (booking_records ?s') (plate_number vehicle) = {bid}"
    proof (cases "r' = r")
      case True
      with a(2) have "vehicle = v\<lparr>vehicleisavailable := True\<rparr>" by simp
      then show ?thesis by (simp add: R only)
    next
      case False
      with a(2) have st: "store s r' = Some vehicle" by simp
      from unique_platesD [OF assms(3) sys' sys st returned(4)] False
      have "plate_number vehicle \<noteq> plate_number v" by blast
      from other [OF this] have "rented_bookings (booking_records s) (plate_number vehicle) - {bid} =
         rented_bookings (booking_records s) (plate_number vehicle)" by simp
      with rental_invD [OF assms(2) sys' st] show ?thesis by (simp add: R)
    qed
  qed
  with returned show ?thesis by simp
qed

lemma rental_inv_step:
  assumes "well_formed s" "rental_inv s" "unique_plates (step s c)"
  shows "rental_inv (step s c)"
proof -
  from unique_plates_step_back [OF assms(1,3)] have u: "unique_plates s" .
  show ?thesis
  proof (cases c)
    case (Call_Vehicle vname plate loc)
    with assms show ?thesis by (simp add: rental_inv_new_Vehicle)
  next
    case (Call_addvehicle r)
    with assms show ?thesis by (simp add: rental_inv_addvehicle)
  next
    case (Call_createBooking usr vname loc)
    with assms show ?thesis by (simp add: rental_inv_createBooking)
  next
    case (Call_rentVehicle bid)
    with assms u show ?thesis by (simp add: rental_inv_rentVehicle)
  next
    case (Call_returnVehicle bid)
    with assms u show ?thesis by (simp add: rental_inv_returnVehicle)
  qed
qed

lemma rental_inv_run: "unique_plates (run calls) \<Longrightarrow> rental_inv (run calls)"
proof (induction calls rule: rev_induct)
  case Nil
  then show ?case by (simp add: run_def rental_inv_init)
next
  case (snoc c calls)
  from snoc.prems have u: "unique_plates (step (run calls) c)" by (simp add: run_snoc)
  from unique_plates_step_back [OF well_formed_run u] have "rental_inv (run calls)" by (rule snoc.IH)
  from rental_inv_step [OF well_formed_run this u] show ?case by (simp add: run_snoc)
qed

lemma ex1_rented_bookings:
  "(\<exists>!bid. \<exists>booking. m bid = Some booking \<and> b_plate_number booking = p \<and> status booking = ''RENTED'')
     \<longleftrightarrow> (\<exists>bid. rented_bookings m p = {bid})"
proof -
  have "(\<exists>!bid. bid \<in> rented_bookings m p) \<longleftrightarrow> (\<exists>bid. rented_bookings m p = {bid})"
    by auto
  then show ?thesis by (simp add: rented_bookings_def)
qed

lemma rental_inv_unavailable_iff_rented:
  assumes "rental_inv s" shows "unavailable_iff_rented s"
  unfolding unavailable_iff_rented_def ex1_rented_bookings
proof (intro allI impI)
  fix loc r and vehicle :: Vehicle
  assume a: "r \<in> set (getVehicles s loc) \<and> store s r = Some vehicle"
  then have "in_system s r" by (auto simp: in_system_def)
  from rental_invD [OF assms this] a
  show "(\<not> vehicleisavailable vehicle) =
     (\<exists>bid. rented_bookings (booking_records s) (plate_number vehicle) = {bid})"
    by (cases "vehicleisavailable vehicle") auto
qed

lemma well_formed_available_again_only_by_return:
  assumes "well_formed s" shows "available_again_only_by_return s"
  unfolding available_again_only_by_return_def
proof (intro allI impI)
  fix c r and vehicle vehicle' :: Vehicle
  assume a: "store s r = Some vehicle \<and> \<not> vehicleisavailable vehicle \<and>
        store (step s c) r = Some vehicle' \<and> vehicleisavailable vehicle'"
  show "\<exists>bid booking. c = Call_returnVehicle bid \<and> booking_records s bid = Some booking \<and>
           status booking = ''RENTED'' \<and> b_plate_number booking = plate_number vehicle \<and>
           booking_records (step s c) bid = Some (booking\<lparr>status := ''COMPLETED''\<rparr>)"
  proof (cases c)
    case (Call_Vehicle vname plate loc)
    from well_formed_fresh [OF assms] a have "r \<noteq> next_ref s" by auto
    with Call_Vehicle a show ?thesis by (auto simp: new_Vehicle_def)
  next
    case (Call_addvehicle r')
    with a show ?thesis
      by (cases rule: addvehicle_cases [of s r']) auto
  next
    case (Call_createBooking usr vname loc)
    with a show ?thesis
      by (cases rule: createBooking_cases [of s usr vname loc]) auto
  next
    case (Call_rentVehicle bid)
    with a show ?thesis
      by (cases rule: rentVehicle_cases [of s bid]) (auto split: if_splits)
  next
    case (Call_returnVehicle bid)
    show ?thesis
    proof (cases rule: returnVehicle_cases [of s bid])
      case failed
      with a Call_returnVehicle show ?thesis by auto
    next
      case (returned b r0 v0)
      with a Call_returnVehicle have "r = r0" by (auto split: if_splits)
      with a returned Call_returnVehicle show ?thesis by simp
    qed
  qed
qed

lemma getVehicles_rented_calls:
  "getVehicles (run rented_calls) loc = (if loc = ''Bangalore'' then [0, 1] else [])"
  by (simp add: run_rented_calls getVehicles_def)

lemma unique_plates_rented_calls: "unique_plates (run rented_calls)"
  unfolding unique_plates_def in_system_def getVehicles_rented_calls
  by (auto simp: run_rented_calls split: if_splits)

subsection \<open>The availability invariant\<close>

text \<open>
  Claim C1, as the code has it. In every reachable state in which no two distinct
  vehicles of the system share a plate number, a vehicle of the system is unavailable
  if and only if exactly one stored booking references its plate number with status
  \<^verbatim>\<open>"RENTED"\<close>. In every reachable state, shared plate numbers or not, an unavailable
  vehicle becomes available only by a \<^verbatim>\<open>returnVehicle\<close> call on a \<^verbatim>\<open>"RENTED"\<close> booking
  that references its plate number, and that call sets the booking's status to
  \<^verbatim>\<open>"COMPLETED"\<close>.
\<close>

theorem availability_invariant:
  "(unique_plates (run calls) \<longrightarrow> unavailable_iff_rented (run calls)) \<and>
   available_again_only_by_return (run calls)"
  using rental_inv_unavailable_iff_rented [OF rental_inv_run]
    well_formed_available_again_only_by_return [OF well_formed_run]
  by blast

text \<open>
  With the demo's car rented: the plate numbers are distinct, exactly one
  \<^verbatim>\<open>"RENTED"\<close> booking references the car's plate, none the bike's, and returning
  booking 1 completes the booking that referenced the car.
\<close>

theorem availability_invariant_witness:
  "unique_plates (run rented_calls) \<and>
   (\<exists>!bid. \<exists>booking. booking_records (run rented_calls) bid = Some booking \<and>
       b_plate_number booking = ''KA01'' \<and> status booking = ''RENTED'') \<and>
   \<not> (\<exists>!bid. \<exists>booking. booking_records (run rented_calls) bid = Some booking \<and>
       b_plate_number booking = ''KA02'' \<and> status booking = ''RENTED'') \<and>
   (\<exists>booking. booking_records (run rented_calls) 1 = Some booking \<and>
       status booking = ''RENTED'' \<and> b_plate_number booking = ''KA01'' \<and>
       booking_records (step (run rented_calls) (Call_returnVehicle 1)) 1 =
         Some (booking\<lparr>status := ''COMPLETED''\<rparr>))"
proof -
  note t = availability_invariant [of rented_calls]
  from t unique_plates_rented_calls have inv: "unavailable_iff_rented (run rented_calls)" by blast
  from inv [unfolded unavailable_iff_rented_def, rule_format, of 0 "''Bangalore''"
      "car_KA01\<lparr>vehicleisavailable := False\<rparr>"] rented_calls_facts
  have 1: "\<exists>!bid. \<exists>booking. booking_records (run rented_calls) bid = Some booking \<and>
       b_plate_number booking = ''KA01'' \<and> status booking = ''RENTED''"
    by (simp add: car_KA01_def)
  from inv [unfolded unavailable_iff_rented_def, rule_format, of 1 "''Bangalore''" bike_KA02]
    rented_calls_facts
  have 2: "\<not> (\<exists>!bid. \<exists>booking. booking_records (run rented_calls) bid = Some booking \<and>
       b_plate_number booking = ''KA02'' \<and> status booking = ''RENTED'')"
    by (simp add: bike_KA02_def)
  from t have "available_again_only_by_return (run rented_calls)" by blast
  from this [unfolded available_again_only_by_return_def, rule_format,
      of 0 "car_KA01\<lparr>vehicleisavailable := False\<rparr>" "Call_returnVehicle 1" car_KA01]
    rented_calls_facts rented_calls_return
  have 3: "\<exists>booking. booking_records (run rented_calls) 1 = Some booking \<and>
       status booking = ''RENTED'' \<and> b_plate_number booking = ''KA01'' \<and>
       booking_records (step (run rented_calls) (Call_returnVehicle 1)) 1 =
         Some (booking\<lparr>status := ''COMPLETED''\<rparr>)"
    by (auto simp: car_KA01_def)
  from unique_plates_rented_calls 1 2 3 show ?thesis by blast
qed

text \<open>
  Claim C1 as stated, for every reachable state, fails: the source never checks that
  a plate number is new. After two cars with the plate \<^verbatim>\<open>"KA01"\<close> are added and the
  first is booked and rented, the second car is available although exactly one
  booking references its plate number with status \<^verbatim>\<open>"RENTED"\<close>.
\<close>

theorem availability_invariant_counterexample:
  "\<not> unavailable_iff_rented (run twin_plate_calls) \<and>
   1 \<in> set (getVehicles (run twin_plate_calls) ''Bangalore'') \<and>
   store (run twin_plate_calls) 1 =
     Some \<lparr>vehicle_name = ''Car'', plate_number = ''KA01'',
           vehicle_location = ''Bangalore'', vehicleisavailable = True\<rparr> \<and>
   (\<exists>!bid. \<exists>booking. booking_records (run twin_plate_calls) bid = Some booking \<and>
      b_plate_number booking = ''KA01'' \<and> status booking = ''RENTED'')"
proof -
  have listed: "1 \<in> set (getVehicles (run twin_plate_calls) ''Bangalore'')"
    by (simp add: run_twin_plate_calls getVehicles_def)
  have stored: "store (run twin_plate_calls) 1 =
     Some \<lparr>vehicle_name = ''Car'', plate_number = ''KA01'',
           vehicle_location = ''Bangalore'', vehicleisavailable = True\<rparr>"
    by (simp add: run_twin_plate_calls)
  have one: "\<exists>!bid. \<exists>booking. booking_records (run twin_plate_calls) bid = Some booking \<and>
           b_plate_number booking = ''KA01'' \<and> status booking = ''RENTED''"
    by (rule ex1I [of _ 1]) (simp_all add: run_twin_plate_calls split: if_splits)
  have "\<not> unavailable_iff_rented (run twin_plate_calls)"
  proof
    assume "unavailable_iff_rented (run twin_plate_calls)"
    then have "(\<not> vehicleisavailable \<lparr>vehicle_name = ''Car'', plate_number = ''KA01'',
           vehicle_location = ''Bangalore'', vehicleisavailable = True\<rparr>) =
       (\<exists>!bid. \<exists>booking. booking_records (run twin_plate_calls) bid = Some booking \<and>
          b_plate_number booking =
            plate_number \<lparr>vehicle_name = ''Car'', plate_number = ''KA01'',
              vehicle_location = ''Bangalore'', vehicleisavailable = True\<rparr> \<and>
          status booking = ''RENTED'')"
      unfolding unavailable_iff_rented_def using listed stored by blast
    with one show False by simp
  qed
  then show ?thesis by (intro conjI listed stored one)
qed

subsection \<open>Book, rent, return\<close>

lemma book_rent_return_unique:
  assumes well_formed: "well_formed s" and u: "unique_plates s"
    and r: "r \<in> set (getVehicles s loc)" "store s r = Some vehicle"
      "vehicle_name vehicle = vname" "vehicleisavailable vehicle"
  shows "\<exists>bid s1 s2 s3 booking.
           createBooking s usr vname loc = (Some bid, s1) \<and>
           rentVehicle s1 bid = (True, s2) \<and>
           returnVehicle s2 bid = (True, s3) \<and>
           store s3 = store s \<and>
           booking_records s3 bid = Some booking \<and> status booking = ''COMPLETED''"
proof (cases rule: createBooking_cases [of s usr vname loc])
  case not_found
  with createBooking_succeeds [OF r, of usr] show ?thesis by simp
next
  case (booked r0 v0)
  let ?bid = "booking_counter s"
  let ?b = "\<lparr>booking_id = booking_counter s, b_username = username usr,
               b_vehicle_name = vehicle_name v0, b_plate_number = plate_number v0,
               b_location = vehicle_location v0, status = ''BOOKED''\<rparr>"
  let ?s1 = "s\<lparr>booking_records := (booking_records s)(?bid \<mapsto> ?b),
           booking_counter := booking_counter s + 1\<rparr>"
  from well_formed_listed [OF well_formed booked(1)] booked(2) have loc: "vehicle_location v0 = loc" by simp
  from booked(1) have sys0: "in_system s r0" by (auto simp: in_system_def)
  have b1: "booking_records ?s1 ?bid = Some ?b" by simp
  have rent_ok: "fst (rentVehicle ?s1 ?bid)"
    using booked loc by (intro rentVehicle_succeeds [of _ _ ?b r0 v0]) simp_all
  show ?thesis
  proof (cases rule: rentVehicle_cases [of ?s1 ?bid])
    case failed
    with rent_ok show ?thesis by simp
  next
    case (rented b r1 v1)
    from rented(1) have b: "b = ?b" by simp
    from rented(3) have sys1: "in_system s r1" by (auto simp: in_system_def)
    from unique_platesD [OF u sys1 sys0, of v1 v0] rented(4,5) booked(2) b
    have r1: "r1 = r0" by simp
    with rented(4) booked(2) have v1: "v1 = v0" by simp
    let ?s2 = "?s1\<lparr>store := (store ?s1)(r0 \<mapsto> v0\<lparr>vehicleisavailable := False\<rparr>),
           booking_records := (booking_records ?s1)(?bid \<mapsto> ?b\<lparr>status := ''RENTED''\<rparr>)\<rparr>"
    from rented(7) r1 v1 b have s2: "rentVehicle ?s1 ?bid = (True, ?s2)" by simp
    have ret_ok: "fst (returnVehicle ?s2 ?bid)"
      using booked loc
      by (intro returnVehicle_succeeds [of _ _ "?b\<lparr>status := ''RENTED''\<rparr>" r0
            "v0\<lparr>vehicleisavailable := False\<rparr>"]) simp_all
    show ?thesis
    proof (cases rule: returnVehicle_cases [of ?s2 ?bid])
      case failed
      with ret_ok show ?thesis by simp
    next
      case (returned b' r2 v2)
      from returned(1) have b': "b' = ?b\<lparr>status := ''RENTED''\<rparr>" by simp
      from returned(3) have sys2: "in_system s r2" by (auto simp: in_system_def)
      have "r2 = r0"
      proof (rule ccontr)
        assume ne: "r2 \<noteq> r0"
        with returned(4) have "store s r2 = Some v2" by simp
        from unique_platesD [OF u sys2 sys0 this booked(2)] returned(5) b' ne
        show False by simp
      qed
      with returned(4) have v2: "v2 = v0\<lparr>vehicleisavailable := False\<rparr>" by simp
      have "(v0\<lparr>vehicleisavailable := False\<rparr>)\<lparr>vehicleisavailable := True\<rparr> = v0"
        using booked(4) by simp
      then have st: "(store s)(r0 \<mapsto> (v0\<lparr>vehicleisavailable := False\<rparr>)\<lparr>vehicleisavailable := True\<rparr>) = store s"
        using booked(2) by (simp add: fun_upd_idem)
      let ?s3 = "?s2\<lparr>store := (store ?s2)(r0 \<mapsto> (v0\<lparr>vehicleisavailable := False\<rparr>)\<lparr>vehicleisavailable := True\<rparr>),
           booking_records := (booking_records ?s2)(?bid \<mapsto> ?b\<lparr>status := ''COMPLETED''\<rparr>)\<rparr>"
      from returned(6) \<open>r2 = r0\<close> v2 b' have s3: "returnVehicle ?s2 ?bid = (True, ?s3)" by simp
      have "store ?s3 = store s" using st by simp
      moreover have "booking_records ?s3 ?bid = Some (?b\<lparr>status := ''COMPLETED''\<rparr>)" by simp
      ultimately show ?thesis
        using booked(5) s2 s3 by (intro exI [of _ ?bid] exI [of _ ?s1] exI [of _ ?s2] exI [of _ ?s3]
            exI [of _ "?b\<lparr>status := ''COMPLETED''\<rparr>"]) simp
    qed
  qed
qed

lemma book_rent_return_restoresI:
  assumes "well_formed s" "unique_plates s"
  shows "book_rent_return_restores s usr vname loc"
  unfolding book_rent_return_restores_def
proof (intro allI impI)
  fix r and vehicle :: Vehicle
  assume a: "r \<in> set (getVehicles s loc) \<and> store s r = Some vehicle \<and>
        vehicle_name vehicle = vname \<and> vehicleisavailable vehicle"
  then have r: "r \<in> set (getVehicles s loc)" "store s r = Some vehicle"
    "vehicle_name vehicle = vname" "vehicleisavailable vehicle"
    by simp_all
  from book_rent_return_unique [OF assms r, of usr] obtain bid s1 s2 s3 booking where
    seq: "createBooking s usr vname loc = (Some bid, s1)" "rentVehicle s1 bid = (True, s2)"
      "returnVehicle s2 bid = (True, s3)" "store s3 = store s"
      "booking_records s3 bid = Some booking" "status booking = ''COMPLETED''"
    by blast
  from seq(4) r have "map_option vehicleisavailable (store s3 r) = Some True" by simp
  with seq show "\<exists>bid s1 s2 s3 booking.
           createBooking s usr vname loc = (Some bid, s1) \<and>
           rentVehicle s1 bid = (True, s2) \<and>
           returnVehicle s2 bid = (True, s3) \<and>
           map_option vehicleisavailable (store s3 r) = Some True \<and>
           booking_records s3 bid = Some booking \<and> status booking = ''COMPLETED''"
    by blast
qed

subsection \<open>Any start of the booking counter\<close>

lemma run_from_snoc: "run_from k (calls @ [c]) = step (run_from k calls) c"
  by (simp add: run_from_def)

lemma run_from_1: "run_from 1 calls = run calls"
  by (simp add: run_from_def run_def VehicleSystem_from_def VehicleSystem_init_def)

lemma well_formed_from: "well_formed (VehicleSystem_from k)"
  by (simp add: well_formed_def VehicleSystem_from_def VehicleSystem_init_def getVehicles_def)

lemma well_formed_run_from: "well_formed (run_from k calls)"
  by (induction calls rule: rev_induct)
     (simp_all add: run_from_snoc well_formed_step, simp add: run_from_def well_formed_from)

lemma run_from_single_car_calls:
  "run_from k single_car_calls = single_car_state\<lparr>booking_counter := k\<rparr>"
  by (simp add: single_car_calls_def single_car_state_def car_KA01_def run_from_def
      VehicleSystem_from_def new_Vehicle_def addvehicle_def getVehicles_def Vehicle_init_def
      VehicleSystem_init_def)

text \<open>
  Claim C5, as the code has it. In every reachable state, whatever the value the
  booking counter started from, in which no two distinct vehicles of the system share
  a plate number, and for every available vehicle with the requested name at the
  location: \<^verbatim>\<open>createBooking\<close> returns an id, \<^verbatim>\<open>rentVehicle\<close> on it succeeds,
  \<^verbatim>\<open>returnVehicle\<close> on it succeeds, the vehicle is available and the booking is
  \<^verbatim>\<open>"COMPLETED"\<close>. The scenario: with the single vehicle \<^verbatim>\<open>"Car"\<close>, \<^verbatim>\<open>"KA01"\<close> at
  \<^verbatim>\<open>"Bangalore"\<close>, booking returns the first-assigned id, which is the value \<open>k\<close> of
  the counter, renting it succeeds and makes the vehicle unavailable, returning it
  succeeds, makes the vehicle available and completes the booking.
\<close>

theorem book_rent_return_sequence:
  "(unique_plates (run_from k calls) \<longrightarrow>
      book_rent_return_restores (run_from k calls) usr vname loc) \<and>
   (case createBooking (run_from k single_car_calls) usr ''Car'' ''Bangalore'' of
      (bid, s1) \<Rightarrow>
        bid = Some k \<and>
        (case rentVehicle s1 k of
           (rented, s2) \<Rightarrow>
             rented \<and> map_option vehicleisavailable (store s2 0) = Some False \<and>
             (case returnVehicle s2 k of
                (returned, s3) \<Rightarrow>
                  returned \<and> map_option vehicleisavailable (store s3 0) = Some True \<and>
                  map_option status (booking_records s3 k) = Some ''COMPLETED'')))"
proof (rule conjI)
  show "unique_plates (run_from k calls) \<longrightarrow>
      book_rent_return_restores (run_from k calls) usr vname loc"
    using book_rent_return_restoresI [OF well_formed_run_from] by blast
next
  let ?b = "\<lparr>booking_id = k, b_username = username usr, b_vehicle_name = ''Car'',
               b_plate_number = ''KA01'', b_location = ''Bangalore'', status = ''BOOKED''\<rparr>"
  let ?s1 = "single_car_state\<lparr>booking_records := [k \<mapsto> ?b], booking_counter := k + 1\<rparr>"
  let ?s2 = "?s1\<lparr>store := [0 \<mapsto> car_KA01\<lparr>vehicleisavailable := False\<rparr>],
                 booking_records := [k \<mapsto> ?b\<lparr>status := ''RENTED''\<rparr>]\<rparr>"
  have 1: "createBooking (run_from k single_car_calls) usr ''Car'' ''Bangalore'' = (Some k, ?s1)"
    by (simp add: run_from_single_car_calls single_car_state_def car_KA01_def createBooking_def
        Booking_init_def getVehicles_def holds_at_def)
  have 2: "rentVehicle ?s1 k = (True, ?s2)"
    by (simp add: single_car_state_def car_KA01_def rentVehicle_def getVehicles_def holds_at_def)
  have 3: "returnVehicle ?s2 k =
     (True, ?s2\<lparr>store := [0 \<mapsto> car_KA01],
                booking_records := [k \<mapsto> ?b\<lparr>status := ''COMPLETED''\<rparr>]\<rparr>)"
    by (simp add: single_car_state_def car_KA01_def returnVehicle_def getVehicles_def holds_at_def)
  show "case createBooking (run_from k single_car_calls) usr ''Car'' ''Bangalore'' of
      (bid, s1) \<Rightarrow>
        bid = Some k \<and>
        (case rentVehicle s1 k of
           (rented, s2) \<Rightarrow>
             rented \<and> map_option vehicleisavailable (store s2 0) = Some False \<and>
             (case returnVehicle s2 k of
                (returned, s3) \<Rightarrow>
                  returned \<and> map_option vehicleisavailable (store s3 0) = Some True \<and>
                  map_option status (booking_records s3 k) = Some ''COMPLETED''))"
    unfolding 1 prod.case 2 3 by (simp add: car_KA01_def)
qed

text \<open>
  With the demo's car rented, the counter started at 1, the bike is available:
  booking, renting and returning it succeed, the bike is available afterwards and its
  booking is \<^verbatim>\<open>"COMPLETED"\<close>.
\<close>

theorem book_rent_return_sequence_witness:
  "unique_plates (run_from 1 rented_calls) \<and>
   (\<exists>bid s1 s2 s3 booking.
      createBooking (run_from 1 rented_calls) demo_user ''Bike'' ''Bangalore'' = (Some bid, s1) \<and>
      rentVehicle s1 bid = (True, s2) \<and>
      returnVehicle s2 bid = (True, s3) \<and>
      map_option vehicleisavailable (store s3 1) = Some True \<and>
      booking_records s3 bid = Some booking \<and> status booking = ''COMPLETED'')"
proof -
  have u: "unique_plates (run_from 1 rented_calls)"
    unfolding run_from_1 by (rule unique_plates_rented_calls)
  from book_rent_return_sequence [of 1 rented_calls demo_user "''Bike''" "''Bangalore''"] u
  have "book_rent_return_restores (run_from 1 rented_calls) demo_user ''Bike'' ''Bangalore''"
    by blast
  from this [unfolded book_rent_return_restores_def run_from_1, rule_format, of 1 bike_KA02]
    rented_calls_facts
  have "\<exists>bid s1 s2 s3 booking.
      createBooking (run rented_calls) demo_user ''Bike'' ''Bangalore'' = (Some bid, s1) \<and>
      rentVehicle s1 bid = (True, s2) \<and>
      returnVehicle s2 bid = (True, s3) \<and>
      map_option vehicleisavailable (store s3 1) = Some True \<and>
      booking_records s3 bid = Some booking \<and> status booking = ''COMPLETED''"
    by (simp add: bike_KA02_def)
  with u show ?thesis unfolding run_from_1 by blast
qed

text \<open>
  Claim C5 as stated, for every state with a matching available vehicle, fails where
  a plate number is shared (\<open>run\<close> is \<open>run_from 1\<close>). A bike with plate \<^verbatim>\<open>"KA01"\<close> is rented and a car with the
  same plate is added at the same location. Booking the car returns id 2, renting it
  makes the car unavailable, and returning it succeeds but releases the bike, the
  first vehicle with that plate: the car stays unavailable.
\<close>

theorem book_rent_return_sequence_counterexample:
  "\<not> book_rent_return_restores (run shared_plate_calls) demo_user ''Car'' ''Bangalore'' \<and>
   1 \<in> set (getVehicles (run shared_plate_calls) ''Bangalore'') \<and>
   store (run shared_plate_calls) 1 =
     Some \<lparr>vehicle_name = ''Car'', plate_number = ''KA01'',
           vehicle_location = ''Bangalore'', vehicleisavailable = True\<rparr> \<and>
   fst (createBooking (run shared_plate_calls) demo_user ''Car'' ''Bangalore'') = Some 2 \<and>
   fst (rentVehicle (snd (createBooking (run shared_plate_calls) demo_user ''Car'' ''Bangalore'')) 2) \<and>
   fst (returnVehicle (snd (rentVehicle (snd (createBooking (run shared_plate_calls) demo_user
      ''Car'' ''Bangalore'')) 2)) 2) \<and>
   store (snd (returnVehicle (snd (rentVehicle (snd (createBooking (run shared_plate_calls) demo_user
      ''Car'' ''Bangalore'')) 2)) 2)) 1 =
     Some \<lparr>vehicle_name = ''Car'', plate_number = ''KA01'',
           vehicle_location = ''Bangalore'', vehicleisavailable = False\<rparr>"
proof -
  have "\<not> book_rent_return_restores (run shared_plate_calls) demo_user ''Car'' ''Bangalore''"
  proof
    assume "book_rent_return_restores (run shared_plate_calls) demo_user ''Car'' ''Bangalore''"
    then have "\<exists>bid s1 s2 s3 booking.
           createBooking (run shared_plate_calls) demo_user ''Car'' ''Bangalore'' = (Some bid, s1) \<and>
           rentVehicle s1 bid = (True, s2) \<and>
           returnVehicle s2 bid = (True, s3) \<and>
           map_option vehicleisavailable (store s3 1) = Some True \<and>
           booking_records s3 bid = Some booking \<and> status booking = ''COMPLETED''"
      by (rule book_rent_return_restores_def [THEN iffD1, rule_format, of _ _ _ _ 1
            "\<lparr>vehicle_name = ''Car'', plate_number = ''KA01'',
              vehicle_location = ''Bangalore'', vehicleisavailable = True\<rparr>"])
         (use shared_plate_eval(1,2) in simp_all)
    then obtain bid s1 s2 s3 where
      c: "createBooking (run shared_plate_calls) demo_user ''Car'' ''Bangalore'' = (Some bid, s1)"
      and r: "rentVehicle s1 bid = (True, s2)" and t: "returnVehicle s2 bid = (True, s3)"
      and a: "map_option vehicleisavailable (store s3 1) = Some True"
      by blast
    from c shared_plate_eval(3) have bid: "bid = 2" by simp
    from c have s1: "snd (createBooking (run shared_plate_calls) demo_user ''Car'' ''Bangalore'') = s1"
      by simp
    from r bid have s2: "snd (rentVehicle s1 2) = s2" by simp
    from t bid have s3: "snd (returnVehicle s2 2) = s3" by simp
    from shared_plate_eval(6) have "store s3 1 =
        Some \<lparr>vehicle_name = ''Car'', plate_number = ''KA01'',
              vehicle_location = ''Bangalore'', vehicleisavailable = False\<rparr>"
      unfolding s1 s2 s3 .
    with a show False by simp
  qed
  then show ?thesis by (intro conjI shared_plate_eval)
qed

section \<open>PDF operations\<close>

subsection \<open>The service\<close>

text \<open>
  Claim C6. For all documents, \<^verbatim>\<open>merge\<close> returns a new document whose pages are the
  pages of the first followed by the pages of the second, and \<^verbatim>\<open>compress\<close> and
  \<^verbatim>\<open>add_watermark\<close> return the value they are given.
\<close>

theorem PDFService_functions:
  "(\<exists>merged. PDFService_merge uid (Some pdf1) (Some pdf2) = Inr (Some merged) \<and>
      doc_id merged = uid \<and> pages merged = pages pdf1 @ pages pdf2) \<and>
   PDFService_compress pdf = Inr pdf \<and>
   PDFService_add_watermark pdf page_range = Inr pdf"
  by (simp add: PDFService_merge_def PDFService_compress_def PDFService_add_watermark_def)

subsection \<open>Running an operation\<close>

lemma outcome_cases:
  obtains (returns) result where "outcome = Inr result"
  | (raises) cls where "outcome = Inl (Exception cls)"
  | (escapes) cls where "outcome = Inl (BaseException cls)"
proof (cases outcome)
  case (Inl e)
  then show ?thesis by (cases e) (auto intro: raises escapes)
next
  case (Inr result)
  then show ?thesis by (rule returns)
qed

lemma method_eq:
  "(let (operation, mem1) = new_Operation mem uid usr t files;
        (mgr1, mem2) = record_operation mgr mem1 operation
    in finish mgr1 operation (guarded mem2 operation outcome)) =
   (result_of uid outcome,
    fst (record_operation mgr (snd (new_Operation mem uid usr t files)) (next_object mem)),
    after_call mem uid (marked (Operation_init uid usr t files) outcome))"
  by (cases rule: outcome_cases [of outcome])
     (simp_all add: new_Operation_def record_operation_def save_def id_of_def guarded_def
        finish_def mutate_def marked_def result_of_def after_call_def Operation_init_def
        mark_completed_def mark_failed_def)

lemma merge_pdf_eq:
  "merge_pdf mgr mem uid doc_uid pdf1 pdf2 =
     (result_of uid (merge (pdf_service mgr) doc_uid pdf1 pdf2),
      fst (record_operation mgr (snd (new_Operation mem uid (user mgr) MERGE [pdf1, pdf2]))
             (next_object mem)),
      after_call mem uid
        (marked (Operation_init uid (user mgr) MERGE [pdf1, pdf2])
           (merge (pdf_service mgr) doc_uid pdf1 pdf2)))"
  unfolding merge_pdf_def by (rule method_eq)

lemma compress_pdf_eq:
  "compress_pdf mgr mem uid pdf =
     (result_of uid (compress (pdf_service mgr) pdf),
      fst (record_operation mgr (snd (new_Operation mem uid (user mgr) COMPRESS [pdf]))
             (next_object mem)),
      after_call mem uid
        (marked (Operation_init uid (user mgr) COMPRESS [pdf]) (compress (pdf_service mgr) pdf)))"
  unfolding compress_pdf_def by (rule method_eq)

lemma add_watermark_eq:
  "add_watermark mgr mem uid pdf page_range =
     (result_of uid (watermark (pdf_service mgr) pdf page_range),
      fst (record_operation mgr (snd (new_Operation mem uid (user mgr) WATERMARK [pdf]))
             (next_object mem)),
      after_call mem uid
        (marked (Operation_init uid (user mgr) WATERMARK [pdf])
           (watermark (pdf_service mgr) pdf page_range)))"
  unfolding add_watermark_def by (rule method_eq)

lemma get_after_call [simp]: "get (after_call mem uid operation) uid = Some operation"
  by (simp add: get_def after_call_def)

lemma recorded_outcome_after_call:
  "recorded_outcome mgr uid t files outcome
     (result_of uid outcome, mgr1,
      after_call mem uid (marked (Operation_init uid (user mgr) t files) outcome))"
  by (cases rule: outcome_cases [of outcome])
     (simp_all add: recorded_outcome_def result_of_def marked_def Operation_init_def
        mark_completed_def mark_failed_def)

lemma record_operation_fields [simp]:
  "user (fst (record_operation mgr mem r)) = user mgr"
  "pdf_service (fst (record_operation mgr mem r)) = pdf_service mgr"
  by (simp_all add: record_operation_def)

lemma merge_alex:
  "merge (pdf_service alex_mgr) ''m1'' (Some file1) (Some file2) =
     Inr (Some \<lparr>doc_id = ''m1'', name = ''merged.pdf'', pages = [1, 2, 3, 4, 5]\<rparr>)"
  by (simp add: alex_mgr_def UserPdfManager_init_def PDFService_init_def PDFService_merge_def
      file1_def file2_def)

lemma compress_alex: "compress (pdf_service alex_mgr) pdf = Inr pdf"
  by (simp add: alex_mgr_def UserPdfManager_init_def PDFService_init_def PDFService_compress_def)

lemma watermark_alex: "watermark (pdf_service alex_mgr) pdf page_range = Inr pdf"
  by (simp add: alex_mgr_def UserPdfManager_init_def PDFService_init_def
      PDFService_add_watermark_def)

lemma service_failing:
  "merge (pdf_service failing_mgr) doc_uid pdf1 pdf2 = Inl (Exception ''MemoryError'')"
  "compress (pdf_service failing_mgr) pdf = Inl (Exception ''MemoryError'')"
  "watermark (pdf_service failing_mgr) pdf page_range = Inl (Exception ''MemoryError'')"
  by (simp_all add: failing_mgr_def failing_service_def)

lemma service_interrupted:
  "merge (pdf_service interrupted_mgr) doc_uid pdf1 pdf2 = Inl (BaseException ''KeyboardInterrupt'')"
  "compress (pdf_service interrupted_mgr) pdf = Inl (BaseException ''KeyboardInterrupt'')"
  "watermark (pdf_service interrupted_mgr) pdf page_range = Inl (BaseException ''KeyboardInterrupt'')"
  by (simp_all add: interrupted_mgr_def interrupted_service_def)

lemma user_mgrs [simp]:
  "pdf_username (user alex_mgr) = ''alex''" "pdf_username (user failing_mgr) = ''alex''"
  "pdf_username (user interrupted_mgr) = ''alex''"
  by (simp_all add: failing_mgr_def interrupted_mgr_def alex_mgr_def UserPdfManager_init_def alex_def)

lemmas pdf_eval = pdf_run_def merge_pdf_eq compress_pdf_eq add_watermark_eq after_call_def
  get_def marked_def result_of_def mark_completed_def mark_failed_def Operation_init_def
  PdfMemory_init_def

text \<open>
  Claim C7, as the code has it. An operation is created with status \<^verbatim>\<open>PENDING\<close> and
  no output, and \<^verbatim>\<open>_record_operation\<close> stores it in the repository under its id.
  For each of \<^verbatim>\<open>merge_pdf\<close>, \<^verbatim>\<open>compress_pdf\<close> and \<^verbatim>\<open>add_watermark\<close>: when the
  service call returns, the method returns the operation's id and the stored
  operation is \<^verbatim>\<open>COMPLETED\<close> with the returned value as output; when the call raises
  an instance of \<^verbatim>\<open>Exception\<close>, the method returns the id and the stored operation
  is \<^verbatim>\<open>FAILED\<close> with no output; when the call raises a \<^verbatim>\<open>BaseException\<close> outside
  \<^verbatim>\<open>Exception\<close>, the exception leaves the method, no id is returned and the stored
  operation stays \<^verbatim>\<open>PENDING\<close>.
\<close>

theorem run_operation_lifecycle:
  "objects (snd (new_Operation mem uid usr t files)) (fst (new_Operation mem uid usr t files)) =
     Some \<lparr>op_id = uid, op_user = pdf_username usr, op_type = t, input_files = files,
           output_file = None, op_status = PENDING\<rparr> \<and>
   (\<forall>operation. objects mem r = Some operation \<longrightarrow>
      get (snd (record_operation mgr mem r)) (op_id operation) = Some operation) \<and>
   recorded_outcome mgr uid MERGE [pdf1, pdf2] (merge (pdf_service mgr) doc_uid pdf1 pdf2)
     (merge_pdf mgr mem uid doc_uid pdf1 pdf2) \<and>
   recorded_outcome mgr uid COMPRESS [pdf] (compress (pdf_service mgr) pdf)
     (compress_pdf mgr mem uid pdf) \<and>
   recorded_outcome mgr uid WATERMARK [pdf] (watermark (pdf_service mgr) pdf page_range)
     (add_watermark mgr mem uid pdf page_range)"
proof (intro conjI allI impI)
  show "objects (snd (new_Operation mem uid usr t files)) (fst (new_Operation mem uid usr t files)) =
     Some \<lparr>op_id = uid, op_user = pdf_username usr, op_type = t, input_files = files,
           output_file = None, op_status = PENDING\<rparr>"
    by (simp add: new_Operation_def Operation_init_def)
next
  fix operation :: "'a Operation"
  assume "objects mem r = Some operation"
  then show "get (snd (record_operation mgr mem r)) (op_id operation) = Some operation"
    by (simp add: record_operation_def save_def id_of_def get_def)
next
  show "recorded_outcome mgr uid MERGE [pdf1, pdf2] (merge (pdf_service mgr) doc_uid pdf1 pdf2)
     (merge_pdf mgr mem uid doc_uid pdf1 pdf2)"
    unfolding merge_pdf_eq by (rule recorded_outcome_after_call)
next
  show "recorded_outcome mgr uid COMPRESS [pdf] (compress (pdf_service mgr) pdf)
     (compress_pdf mgr mem uid pdf)"
    unfolding compress_pdf_eq by (rule recorded_outcome_after_call)
next
  show "recorded_outcome mgr uid WATERMARK [pdf] (watermark (pdf_service mgr) pdf page_range)
     (add_watermark mgr mem uid pdf page_range)"
    unfolding add_watermark_eq by (rule recorded_outcome_after_call)
qed

text \<open>
  Merging the demo's files with the source's service completes with the pages
  1 to 5; compressing with a service that raises \<^verbatim>\<open>MemoryError\<close> is recorded as
  \<^verbatim>\<open>FAILED\<close> with no output, and both calls return the operation's id; compressing
  with a service that raises \<^verbatim>\<open>KeyboardInterrupt\<close> raises it and leaves the operation
  \<^verbatim>\<open>PENDING\<close>.
\<close>

theorem run_operation_lifecycle_witness:
  "fst (merge_pdf alex_mgr PdfMemory_init ''op1'' ''m1'' (Some file1) (Some file2)) = Inr ''op1'' \<and>
   get (snd (snd (merge_pdf alex_mgr PdfMemory_init ''op1'' ''m1'' (Some file1) (Some file2)))) ''op1'' =
     Some merged_op \<and>
   fst (compress_pdf failing_mgr PdfMemory_init ''op2'' (Some file1)) = Inr ''op2'' \<and>
   get (snd (snd (compress_pdf failing_mgr PdfMemory_init ''op2'' (Some file1)))) ''op2'' =
     Some failed_op \<and>
   fst (compress_pdf interrupted_mgr PdfMemory_init ''op2'' (Some file1)) =
     Inl (BaseException ''KeyboardInterrupt'') \<and>
   get (snd (snd (compress_pdf interrupted_mgr PdfMemory_init ''op2'' (Some file1)))) ''op2'' =
     Some pending_op"
proof -
  note t = run_operation_lifecycle [THEN conjunct2, THEN conjunct2]
  from t [THEN conjunct1, of alex_mgr "''op1''" "Some file1" "Some file2" "''m1''" PdfMemory_init]
  have 1: "fst (merge_pdf alex_mgr PdfMemory_init ''op1'' ''m1'' (Some file1) (Some file2)) = Inr ''op1'' \<and>
   get (snd (snd (merge_pdf alex_mgr PdfMemory_init ''op1'' ''m1'' (Some file1) (Some file2)))) ''op1'' =
     Some merged_op"
    unfolding recorded_outcome_def by (simp add: merge_alex merged_op_def)
  from t [THEN conjunct2, THEN conjunct1, of failing_mgr "''op2''" "Some file1" PdfMemory_init]
  have 2: "fst (compress_pdf failing_mgr PdfMemory_init ''op2'' (Some file1)) = Inr ''op2'' \<and>
   get (snd (snd (compress_pdf failing_mgr PdfMemory_init ''op2'' (Some file1)))) ''op2'' =
     Some failed_op"
    unfolding recorded_outcome_def by (simp add: service_failing failed_op_def)
  from t [THEN conjunct2, THEN conjunct1, of interrupted_mgr "''op2''" "Some file1" PdfMemory_init]
  have 3: "fst (compress_pdf interrupted_mgr PdfMemory_init ''op2'' (Some file1)) =
     Inl (BaseException ''KeyboardInterrupt'') \<and>
   get (snd (snd (compress_pdf interrupted_mgr PdfMemory_init ''op2'' (Some file1)))) ''op2'' =
     Some pending_op"
    unfolding recorded_outcome_def by (simp add: service_interrupted pending_op_def)
  from 1 2 3 show ?thesis by blast
qed

lemma compress_interrupted_eval:
  "fst (compress_pdf interrupted_mgr PdfMemory_init ''op2'' (Some file1)) =
     Inl (BaseException ''KeyboardInterrupt'')"
  "get (snd (snd (compress_pdf interrupted_mgr PdfMemory_init ''op2'' (Some file1)))) ''op2'' =
     Some pending_op"
  by (simp_all add: compress_pdf_eq service_interrupted result_of_def marked_def
      Operation_init_def pending_op_def)

text \<open>
  Claim C7 as stated, for any raised fault, fails: \<^verbatim>\<open>except Exception\<close> does not
  catch \<^verbatim>\<open>KeyboardInterrupt\<close>. With a service whose \<^verbatim>\<open>compress\<close> raises it,
  \<^verbatim>\<open>compress_pdf\<close> does not swallow the fault: the exception leaves the method, no
  id is returned, and the operation stays stored as \<^verbatim>\<open>PENDING\<close>.
\<close>

theorem run_operation_lifecycle_counterexample:
  "compress (pdf_service interrupted_mgr) (Some file1) = Inl (BaseException ''KeyboardInterrupt'') \<and>
   \<not> swallowed ''op2'' (compress_pdf interrupted_mgr PdfMemory_init ''op2'' (Some file1)) \<and>
   fst (compress_pdf interrupted_mgr PdfMemory_init ''op2'' (Some file1)) =
     Inl (BaseException ''KeyboardInterrupt'') \<and>
   get (snd (snd (compress_pdf interrupted_mgr PdfMemory_init ''op2'' (Some file1)))) ''op2'' =
     Some pending_op"
proof -
  have "\<not> swallowed ''op2'' (compress_pdf interrupted_mgr PdfMemory_init ''op2'' (Some file1))"
    by (simp add: swallowed_def compress_interrupted_eval)
  then show ?thesis
    by (intro conjI compress_interrupted_eval service_interrupted)
qed

subsection \<open>Downloading a result\<close>

lemma get_demo_memory:
  "get demo_memory ''op1'' = Some merged_op" "get demo_memory ''op2'' = Some failed_op"
  "get demo_memory ''op9'' = None"
  by (simp_all add: demo_memory_def get_def)

text \<open>
  Claim C8. \<^verbatim>\<open>download_result\<close> returns the output of the operation when the id is
  known and the operation \<^verbatim>\<open>COMPLETED\<close>; it returns \<^verbatim>\<open>None\<close> for an operation that is
  \<^verbatim>\<open>PENDING\<close> or \<^verbatim>\<open>FAILED\<close> and the same \<^verbatim>\<open>None\<close> for an unknown id. It returns a
  document if and only if a stored operation of that id is \<^verbatim>\<open>COMPLETED\<close> with that
  document as output.
\<close>

theorem download_result_spec:
  "(\<forall>operation. get repo operation_id = Some operation \<and> op_status operation = COMPLETED \<longrightarrow>
      download_result mgr repo operation_id = output_file operation) \<and>
   (\<forall>operation. get repo operation_id = Some operation \<and>
        (op_status operation = PENDING \<or> op_status operation = FAILED) \<longrightarrow>
      download_result mgr repo operation_id = None) \<and>
   (get repo operation_id = None \<longrightarrow> download_result mgr repo operation_id = None) \<and>
   (download_result mgr repo operation_id = Some doc \<longleftrightarrow>
      (\<exists>operation. get repo operation_id = Some operation \<and> op_status operation = COMPLETED \<and>
         output_file operation = Some doc))"
  by (auto simp: download_result_def split: option.splits)

text \<open>
  With a completed merge under \<^verbatim>\<open>"op1"\<close> and a failed compression under \<^verbatim>\<open>"op2"\<close>:
  the merged document for the first, \<^verbatim>\<open>None\<close> for the second and for an unknown id.
\<close>

theorem download_result_spec_witness:
  "download_result alex_mgr demo_memory ''op1'' =
     Some \<lparr>doc_id = ''m1'', name = ''merged.pdf'', pages = [1, 2, 3, 4, 5]\<rparr> \<and>
   download_result alex_mgr demo_memory ''op2'' = None \<and>
   download_result alex_mgr demo_memory ''op9'' = None"
proof -
  have "download_result alex_mgr demo_memory ''op1'' = output_file merged_op"
    by (rule download_result_spec [THEN conjunct1, rule_format])
       (simp add: get_demo_memory merged_op_def)
  moreover have "download_result alex_mgr demo_memory ''op2'' = None"
    by (rule download_result_spec [THEN conjunct2, THEN conjunct1, rule_format, of _ _ failed_op])
       (simp add: get_demo_memory failed_op_def)
  moreover have "download_result alex_mgr demo_memory ''op9'' = None"
    by (rule download_result_spec [THEN conjunct2, THEN conjunct2, THEN conjunct1, rule_format])
       (simp add: get_demo_memory)
  ultimately show ?thesis by (simp add: merged_op_def)
qed

subsection \<open>Invariants of the repository\<close>

lemma every_objectD: "every_object P mem \<Longrightarrow> get mem operation_id = Some operation \<Longrightarrow> P operation"
  by (auto simp: every_object_def get_def split: option.splits)

lemma every_object_init: "every_object P PdfMemory_init"
  by (simp add: every_object_def PdfMemory_init_def)

lemma every_object_after_call:
  "every_object P mem \<Longrightarrow> P operation \<Longrightarrow> every_object P (after_call mem uid operation)"
  by (auto simp: every_object_def after_call_def)

lemma pdf_run_snoc: "pdf_run mgr (calls @ [c]) = pdf_step (pdf_run mgr calls) c"
  by (simp add: pdf_run_def)

lemma pdf_step_service [simp]: "pdf_service (fst (pdf_step (mgr, mem) c)) = pdf_service mgr"
  by (cases c) (simp_all add: merge_pdf_eq compress_pdf_eq add_watermark_eq)

lemma pdf_run_service [simp]: "pdf_service (fst (pdf_run mgr calls)) = pdf_service mgr"
proof (induction calls rule: rev_induct)
  case Nil
  show ?case by (simp add: pdf_run_def)
next
  case (snoc c calls)
  then show ?case by (cases "pdf_run mgr calls") (simp add: pdf_run_snoc)
qed

lemma every_object_step:
  assumes "every_object P mem"
    and "\<And>uid doc_uid pdf1 pdf2. c = Call_merge_pdf uid doc_uid pdf1 pdf2 \<Longrightarrow>
           P (marked (Operation_init uid (user mgr) MERGE [pdf1, pdf2])
                (merge (pdf_service mgr) doc_uid pdf1 pdf2))"
    and "\<And>uid pdf. c = Call_compress_pdf uid pdf \<Longrightarrow>
           P (marked (Operation_init uid (user mgr) COMPRESS [pdf]) (compress (pdf_service mgr) pdf))"
    and "\<And>uid pdf page_range. c = Call_add_watermark uid pdf page_range \<Longrightarrow>
           P (marked (Operation_init uid (user mgr) WATERMARK [pdf])
                (watermark (pdf_service mgr) pdf page_range))"
  shows "every_object P (snd (pdf_step (mgr, mem) c))"
  using assms
  by (cases c)
     (simp_all add: merge_pdf_eq compress_pdf_eq add_watermark_eq every_object_after_call)

lemma marked_no_output_unless_completed:
  "output_file (marked (Operation_init uid usr t files) outcome) \<noteq> None \<longrightarrow>
   op_status (marked (Operation_init uid usr t files) outcome) = COMPLETED"
  by (cases rule: outcome_cases [of outcome])
     (simp_all add: marked_def Operation_init_def mark_completed_def mark_failed_def)

lemma marked_output_iff_completed:
  "outcome \<noteq> Inr None \<Longrightarrow>
   (output_file (marked (Operation_init uid usr t files) outcome) \<noteq> None) =
   (op_status (marked (Operation_init uid usr t files) outcome) = COMPLETED)"
  by (cases rule: outcome_cases [of outcome])
     (simp_all add: marked_def Operation_init_def mark_completed_def mark_failed_def)

lemma marked_terminal:
  "\<forall>cls. outcome \<noteq> Inl (BaseException cls) \<Longrightarrow>
   op_status (marked (Operation_init uid usr t files) outcome) = COMPLETED \<or>
   op_status (marked (Operation_init uid usr t files) outcome) = FAILED"
  by (cases rule: outcome_cases [of outcome])
     (simp_all add: marked_def Operation_init_def mark_completed_def mark_failed_def)

lemma PDFService_init_outcomes:
  "merge PDFService_init doc_uid pdf1 pdf2 \<noteq> Inr None"
  "pdf \<noteq> None \<Longrightarrow> compress PDFService_init pdf \<noteq> Inr None"
  "pdf \<noteq> None \<Longrightarrow> watermark PDFService_init pdf page_range \<noteq> Inr None"
  by (simp_all add: PDFService_init_def PDFService_merge_def PDFService_compress_def
      PDFService_add_watermark_def split: option.splits)

lemma run_no_output_unless_completed:
  "every_object (\<lambda>operation. output_file operation \<noteq> None \<longrightarrow> op_status operation = COMPLETED)
     (snd (pdf_run mgr calls))"
proof (induction calls rule: rev_induct)
  case Nil
  show ?case by (simp add: pdf_run_def every_object_init)
next
  case (snoc c calls)
  obtain mgr' mem' where st: "pdf_run mgr calls = (mgr', mem')" by (cases "pdf_run mgr calls")
  with snoc show ?case
    by (simp add: pdf_run_snoc every_object_step marked_no_output_unless_completed)
qed

lemma run_output_iff_completed:
  assumes "pdf_service mgr = PDFService_init" "list_all passes_document calls"
  shows "every_object (\<lambda>operation. (output_file operation \<noteq> None) = (op_status operation = COMPLETED))
     (snd (pdf_run mgr calls))"
  using assms(2)
proof (induction calls rule: rev_induct)
  case Nil
  show ?case by (simp add: pdf_run_def every_object_init)
next
  case (snoc c calls)
  obtain mgr' mem' where st: "pdf_run mgr calls = (mgr', mem')" by (cases "pdf_run mgr calls")
  from pdf_run_service [of mgr calls] st assms(1) have svc: "pdf_service mgr' = PDFService_init"
    by simp
  from snoc have inv: "every_object (\<lambda>operation. (output_file operation \<noteq> None) =
      (op_status operation = COMPLETED)) mem'" and c: "passes_document c"
    using st by simp_all
  have "every_object (\<lambda>operation. (output_file operation \<noteq> None) =
      (op_status operation = COMPLETED)) (snd (pdf_step (mgr', mem') c))"
    using inv
  proof (rule every_object_step)
    fix uid doc_uid pdf1 pdf2
    show "(output_file (marked (Operation_init uid (user mgr') MERGE [pdf1, pdf2])
             (merge (pdf_service mgr') doc_uid pdf1 pdf2)) \<noteq> None) =
          (op_status (marked (Operation_init uid (user mgr') MERGE [pdf1, pdf2])
             (merge (pdf_service mgr') doc_uid pdf1 pdf2)) = COMPLETED)"
      unfolding svc by (rule marked_output_iff_completed) (rule PDFService_init_outcomes)
  next
    fix uid pdf
    assume "c = Call_compress_pdf uid pdf"
    with c have "pdf \<noteq> None" by simp
    then show "(output_file (marked (Operation_init uid (user mgr') COMPRESS [pdf])
             (compress (pdf_service mgr') pdf)) \<noteq> None) =
          (op_status (marked (Operation_init uid (user mgr') COMPRESS [pdf])
             (compress (pdf_service mgr') pdf)) = COMPLETED)"
      unfolding svc by (intro marked_output_iff_completed PDFService_init_outcomes)
  next
    fix uid pdf page_range
    assume "c = Call_add_watermark uid pdf page_range"
    with c have "pdf \<noteq> None" by simp
    then show "(output_file (marked (Operation_init uid (user mgr') WATERMARK [pdf])
             (watermark (pdf_service mgr') pdf page_range)) \<noteq> None) =
          (op_status (marked (Operation_init uid (user mgr') WATERMARK [pdf])
             (watermark (pdf_service mgr') pdf page_range)) = COMPLETED)"
      unfolding svc by (intro marked_output_iff_completed PDFService_init_outcomes)
  qed
  with st show ?case by (simp add: pdf_run_snoc)
qed

lemma run_terminal:
  assumes "raises_only_Exception (pdf_service mgr)"
  shows "every_object (\<lambda>operation. op_status operation = COMPLETED \<or> op_status operation = FAILED)
     (snd (pdf_run mgr calls))"
proof (induction calls rule: rev_induct)
  case Nil
  show ?case by (simp add: pdf_run_def every_object_init)
next
  case (snoc c calls)
  obtain mgr' mem' where st: "pdf_run mgr calls = (mgr', mem')" by (cases "pdf_run mgr calls")
  from pdf_run_service [of mgr calls] st have svc: "pdf_service mgr' = pdf_service mgr" by simp
  from assms have no: "\<forall>cls. merge (pdf_service mgr) doc_uid pdf1 pdf2 \<noteq> Inl (BaseException cls)"
    "\<forall>cls. compress (pdf_service mgr) pdf \<noteq> Inl (BaseException cls)"
    "\<forall>cls. watermark (pdf_service mgr) pdf page_range \<noteq> Inl (BaseException cls)"
    for doc_uid pdf1 pdf2 pdf page_range
    by (simp_all add: raises_only_Exception_def)
  from snoc st have "every_object (\<lambda>operation. op_status operation = COMPLETED \<or>
      op_status operation = FAILED) mem'" by simp
  then have "every_object (\<lambda>operation. op_status operation = COMPLETED \<or>
      op_status operation = FAILED) (snd (pdf_step (mgr', mem') c))"
    by (rule every_object_step) (simp_all only: svc marked_terminal [OF no(1)]
          marked_terminal [OF no(2)] marked_terminal [OF no(3)])
  with st show ?case by (simp add: pdf_run_snoc)
qed

lemma returned_terminal:
  assumes "result_of uid outcome = Inr uid'"
  shows "\<exists>operation.
      get (after_call mem uid (marked (Operation_init uid usr t files) outcome)) uid' = Some operation \<and>
      (op_status operation = COMPLETED \<or> op_status operation = FAILED)"
  using assms
  by (cases rule: outcome_cases [of outcome])
     (auto simp: result_of_def marked_def Operation_init_def mark_completed_def mark_failed_def)

lemma get_run_alex:
  "get (snd (pdf_run alex_mgr demo_pdf_calls)) ''op1'' = Some merged_op"
  by (simp add: demo_pdf_calls_def pdf_eval merged_op_def merge_alex compress_alex watermark_alex)

lemma get_run_failing:
  "get (snd (pdf_run failing_mgr demo_pdf_calls)) ''op2'' = Some failed_op"
  by (simp add: demo_pdf_calls_def pdf_eval failed_op_def service_failing)

lemma get_run_interrupted:
  "get (snd (pdf_run interrupted_mgr [Call_compress_pdf ''op2'' (Some file1)])) ''op2'' =
     Some pending_op"
  by (simp add: pdf_eval pending_op_def service_interrupted)

lemma get_run_None:
  "get (snd (pdf_run alex_mgr [Call_compress_pdf ''op2'' None])) ''op2'' = Some completed_None_op"
  by (simp add: pdf_eval completed_None_op_def compress_alex)

lemma passes_document_demo: "list_all passes_document demo_pdf_calls"
  by (simp add: demo_pdf_calls_def)

lemma service_alex: "pdf_service alex_mgr = PDFService_init"
  by (simp add: alex_mgr_def UserPdfManager_init_def)

lemma raises_only_Exception_failing: "raises_only_Exception (pdf_service failing_mgr)"
  by (simp add: raises_only_Exception_def service_failing)

text \<open>
  Claim C9, as the code has it. After every sequence of \<^verbatim>\<open>merge_pdf\<close>, \<^verbatim>\<open>compress_pdf\<close>,
  \<^verbatim>\<open>add_watermark\<close> and \<^verbatim>\<open>download_result\<close> calls on an empty repository, with any
  service and any arguments, a stored operation that is \<^verbatim>\<open>PENDING\<close> or \<^verbatim>\<open>FAILED\<close>
  has no output. With the source's service, and when no call passes \<^verbatim>\<open>None\<close> as the
  PDF of \<^verbatim>\<open>compress_pdf\<close> or \<^verbatim>\<open>add_watermark\<close>, every stored operation has an output
  if and only if its status is \<^verbatim>\<open>COMPLETED\<close>.
\<close>

theorem output_file_iff_completed:
  "no_output_unless_completed (snd (pdf_run mgr calls)) \<and>
   (pdf_service mgr = PDFService_init \<and> list_all passes_document calls \<longrightarrow>
      output_iff_completed (snd (pdf_run mgr calls)))"
proof (intro conjI impI)
  show "no_output_unless_completed (snd (pdf_run mgr calls))"
    unfolding no_output_unless_completed_def
    using every_objectD [OF run_no_output_unless_completed [of mgr calls]] by fastforce
next
  assume "pdf_service mgr = PDFService_init \<and> list_all passes_document calls"
  then have "every_object (\<lambda>operation. (output_file operation \<noteq> None) =
      (op_status operation = COMPLETED)) (snd (pdf_run mgr calls))"
    by (intro run_output_iff_completed) simp_all
  from every_objectD [OF this] show "output_iff_completed (snd (pdf_run mgr calls))"
    unfolding output_iff_completed_def by blast
qed

text \<open>
  The demo's calls pass documents: with the source's service they leave the merge
  completed with an output; with a service that raises they leave the compression
  failed with none.
\<close>

theorem output_file_iff_completed_witness:
  "pdf_service alex_mgr = PDFService_init \<and> list_all passes_document demo_pdf_calls \<and>
   get (snd (pdf_run alex_mgr demo_pdf_calls)) ''op1'' = Some merged_op \<and>
   (output_file merged_op \<noteq> None) = (op_status merged_op = COMPLETED) \<and>
   get (snd (pdf_run failing_mgr demo_pdf_calls)) ''op2'' = Some failed_op \<and>
   output_file failed_op = None"
proof -
  note t = output_file_iff_completed
  from t [of alex_mgr demo_pdf_calls] service_alex passes_document_demo
  have "output_iff_completed (snd (pdf_run alex_mgr demo_pdf_calls))" by blast
  from this [unfolded output_iff_completed_def, rule_format, OF get_run_alex]
  have 1: "(output_file merged_op \<noteq> None) = (op_status merged_op = COMPLETED)" .
  from t [of failing_mgr demo_pdf_calls]
  have "no_output_unless_completed (snd (pdf_run failing_mgr demo_pdf_calls))" by blast
  from this [unfolded no_output_unless_completed_def, rule_format, of "''op2''" failed_op]
    get_run_failing
  have 2: "output_file failed_op = None" by (simp add: failed_op_def)
  from 1 2 service_alex passes_document_demo get_run_alex get_run_failing show ?thesis by blast
qed

text \<open>
  Claim C9 as stated, for every sequence of calls, fails: \<^verbatim>\<open>compress\<close> returns its
  argument and nothing checks it. After \<^verbatim>\<open>compress_pdf(None)\<close> with the source's
  service, the stored operation is \<^verbatim>\<open>COMPLETED\<close> and its output is \<^verbatim>\<open>None\<close>.
\<close>

theorem output_file_iff_completed_counterexample:
  "\<not> output_iff_completed (snd (pdf_run alex_mgr [Call_compress_pdf ''op2'' None])) \<and>
   pdf_service alex_mgr = PDFService_init \<and>
   get (snd (pdf_run alex_mgr [Call_compress_pdf ''op2'' None])) ''op2'' = Some completed_None_op \<and>
   output_file completed_None_op = None \<and> op_status completed_None_op = COMPLETED"
proof -
  have o: "output_file completed_None_op = None" and s: "op_status completed_None_op = COMPLETED"
    by (simp_all add: completed_None_op_def)
  have "\<not> output_iff_completed (snd (pdf_run alex_mgr [Call_compress_pdf ''op2'' None]))"
  proof
    assume "output_iff_completed (snd (pdf_run alex_mgr [Call_compress_pdf ''op2'' None]))"
    from this [unfolded output_iff_completed_def, rule_format, OF get_run_None] o s
    show False by simp
  qed
  then show ?thesis by (intro conjI service_alex get_run_None o s)
qed

text \<open>
  Claim C10, as the code has it. When \<^verbatim>\<open>merge_pdf\<close>, \<^verbatim>\<open>compress_pdf\<close> or
  \<^verbatim>\<open>add_watermark\<close> returns, the repository holds an operation under the returned id
  and its status is \<^verbatim>\<open>COMPLETED\<close> or \<^verbatim>\<open>FAILED\<close>. With a service that raises nothing
  but instances of \<^verbatim>\<open>Exception\<close>, as the source's, no stored operation is
  \<^verbatim>\<open>PENDING\<close> after any sequence of calls.
\<close>

theorem operations_never_pending:
  "(\<forall>returned_id. fst (merge_pdf mgr mem uid doc_uid pdf1 pdf2) = Inr returned_id \<longrightarrow>
      (\<exists>operation.
         get (snd (snd (merge_pdf mgr mem uid doc_uid pdf1 pdf2))) returned_id = Some operation \<and>
         (op_status operation = COMPLETED \<or> op_status operation = FAILED))) \<and>
   (\<forall>returned_id. fst (compress_pdf mgr mem uid pdf) = Inr returned_id \<longrightarrow>
      (\<exists>operation.
         get (snd (snd (compress_pdf mgr mem uid pdf))) returned_id = Some operation \<and>
         (op_status operation = COMPLETED \<or> op_status operation = FAILED))) \<and>
   (\<forall>returned_id. fst (add_watermark mgr mem uid pdf page_range) = Inr returned_id \<longrightarrow>
      (\<exists>operation.
         get (snd (snd (add_watermark mgr mem uid pdf page_range))) returned_id = Some operation \<and>
         (op_status operation = COMPLETED \<or> op_status operation = FAILED))) \<and>
   (raises_only_Exception (pdf_service mgr) \<longrightarrow> never_pending (snd (pdf_run mgr calls)))"
proof (intro conjI allI impI)
  fix returned_id
  assume "fst (merge_pdf mgr mem uid doc_uid pdf1 pdf2) = Inr returned_id"
  then show "\<exists>operation.
         get (snd (snd (merge_pdf mgr mem uid doc_uid pdf1 pdf2))) returned_id = Some operation \<and>
         (op_status operation = COMPLETED \<or> op_status operation = FAILED)"
    unfolding merge_pdf_eq fst_conv snd_conv by (rule returned_terminal)
next
  fix returned_id
  assume "fst (compress_pdf mgr mem uid pdf) = Inr returned_id"
  then show "\<exists>operation.
         get (snd (snd (compress_pdf mgr mem uid pdf))) returned_id = Some operation \<and>
         (op_status operation = COMPLETED \<or> op_status operation = FAILED)"
    unfolding compress_pdf_eq fst_conv snd_conv by (rule returned_terminal)
next
  fix returned_id
  assume "fst (add_watermark mgr mem uid pdf page_range) = Inr returned_id"
  then show "\<exists>operation.
         get (snd (snd (add_watermark mgr mem uid pdf page_range))) returned_id = Some operation \<and>
         (op_status operation = COMPLETED \<or> op_status operation = FAILED)"
    unfolding add_watermark_eq fst_conv snd_conv by (rule returned_terminal)
next
  assume "raises_only_Exception (pdf_service mgr)"
  from every_objectD [OF run_terminal [OF this, of calls]]
  show "never_pending (snd (pdf_run mgr calls))"
    unfolding never_pending_def by blast
qed

text \<open>
  With a service that raises \<^verbatim>\<open>MemoryError\<close>: the compression returns its id and is
  stored as \<^verbatim>\<open>FAILED\<close>, and after the demo's calls it is not \<^verbatim>\<open>PENDING\<close>.
\<close>

theorem operations_never_pending_witness:
  "fst (compress_pdf failing_mgr PdfMemory_init ''op2'' (Some file1)) = Inr ''op2'' \<and>
   (\<exists>operation.
      get (snd (snd (compress_pdf failing_mgr PdfMemory_init ''op2'' (Some file1)))) ''op2'' =
        Some operation \<and>
      (op_status operation = COMPLETED \<or> op_status operation = FAILED)) \<and>
   raises_only_Exception (pdf_service failing_mgr) \<and>
   get (snd (pdf_run failing_mgr demo_pdf_calls)) ''op2'' = Some failed_op \<and>
   op_status failed_op \<noteq> PENDING"
proof -
  have r: "fst (compress_pdf failing_mgr PdfMemory_init ''op2'' (Some file1)) = Inr ''op2''"
    by (simp add: compress_pdf_eq result_of_def service_failing)
  from operations_never_pending [THEN conjunct2, THEN conjunct1, rule_format, OF r]
  have 1: "\<exists>operation.
      get (snd (snd (compress_pdf failing_mgr PdfMemory_init ''op2'' (Some file1)))) ''op2'' =
        Some operation \<and>
      (op_status operation = COMPLETED \<or> op_status operation = FAILED)" .
  from operations_never_pending [THEN conjunct2, THEN conjunct2, THEN conjunct2, rule_format,
      OF raises_only_Exception_failing, of demo_pdf_calls]
  have "never_pending (snd (pdf_run failing_mgr demo_pdf_calls))" .
  from this [unfolded never_pending_def, rule_format, OF get_run_failing]
  have 2: "op_status failed_op \<noteq> PENDING" by auto
  from r 1 2 raises_only_Exception_failing get_run_failing show ?thesis by blast
qed

text \<open>
  Claim C10 as stated, that no caller can ever observe \<^verbatim>\<open>PENDING\<close>, fails: when the
  service raises \<^verbatim>\<open>KeyboardInterrupt\<close> the exception leaves \<^verbatim>\<open>compress_pdf\<close> after the
  operation was saved, and a caller that catches it finds the operation \<^verbatim>\<open>PENDING\<close>
  in the repository.
\<close>

theorem operations_never_pending_counterexample:
  "\<not> never_pending (snd (pdf_run interrupted_mgr [Call_compress_pdf ''op2'' (Some file1)])) \<and>
   get (snd (pdf_run interrupted_mgr [Call_compress_pdf ''op2'' (Some file1)])) ''op2'' =
     Some pending_op \<and>
   op_status pending_op = PENDING"
proof -
  have s: "op_status pending_op = PENDING" by (simp add: pending_op_def)
  have "\<not> never_pending (snd (pdf_run interrupted_mgr [Call_compress_pdf ''op2'' (Some file1)]))"
  proof
    assume "never_pending (snd (pdf_run interrupted_mgr [Call_compress_pdf ''op2'' (Some file1)]))"
    from this [unfolded never_pending_def, rule_format, OF get_run_interrupted] s
    show False by simp
  qed
  then show ?thesis by (intro conjI get_run_interrupted s)
qed

end
